theory Spec2Isabelle
  imports Complex_Main
begin

section \<open>Scalars\<close>

text \<open>
  The solver's scalar type \<open>Scal\<close> is a floating-point type of the mesh. In the reference
  update, the interpolator and the convergence tester it is modelled by the real numbers
  with exact arithmetic. A division by zero has no real value (the machine yields an
  infinity or a NaN); wherever the code can reach one on a well-formed input it is
  written out as \<open>None\<close>. Where a property depends on rounding, overflow or the
  propagation of NaN (the scheduler, and the transport solver without transport) the
  scalars are the binary64 values of the next section.
\<close>

type_synonym Scal = real

section \<open>Binary64 arithmetic\<close>

text \<open>
  A \<open>double\<close> is a finite value, an infinity or a NaN. A finite value is given by the
  real number it stands for; the two zeros are one value, and no operation below tells
  them apart but the division by zero, which the properties proved exclude. The machine
  is taken to round every operation to the nearest value, ties to even, in binary64
  (no extended precision and no fused multiply-add): 53 bits of significand, exponents
  from \<open>-1074\<close> (subnormal) up, overflow to an infinity from \<open>2 ^ 1024\<close> on.
\<close>

datatype double = Fin real | PInf | NInf | NaN

text \<open>\<open>p2 e\<close> is the power \<open>2 ^ e\<close> for an integer exponent.\<close>

definition p2 :: "int \<Rightarrow> real" where
  "p2 e = (if 0 \<le> e then 2 ^ nat e else 1 / 2 ^ nat (- e))"

text \<open>The reals that a finite \<open>double\<close> can stand for.\<close>

definition is_double :: "real \<Rightarrow> bool" where
  "is_double x = (\<exists>m e. x = of_int m * p2 e \<and> \<bar>m\<bar> < 2 ^ 53 \<and> - 1074 \<le> e \<and> e \<le> 971)"

text \<open>
  The exponent of the unit in the last place at \<open>x\<close>, and rounding to the nearest
  integer with ties to even.
\<close>

definition ulp_exp :: "real \<Rightarrow> int" where
  "ulp_exp x = max (\<lfloor>log 2 \<bar>x\<bar>\<rfloor> - 52) (- 1074)"

definition round_even :: "real \<Rightarrow> int" where
  "round_even y =
     (let f = \<lfloor>y\<rfloor> in
      if y - of_int f < 1 / 2 then f
      else if 1 / 2 < y - of_int f then f + 1
      else if even f then f else f + 1)"

text \<open>The result of an operation whose exact value is \<open>x\<close>.\<close>

definition rnd :: "real \<Rightarrow> double" where
  "rnd x =
     (if x = 0 then Fin 0
      else let u = p2 (ulp_exp x);
               r = of_int (round_even (x / u)) * u
           in if 2 ^ 1024 \<le> r then PInf
              else if r \<le> - (2 ^ 1024) then NInf
              else Fin r)"

text \<open>The operations \<open>-x\<close>, \<open>x + y\<close>, \<open>x - y\<close>, \<open>x * y\<close>, \<open>x / y\<close> and \<open>x < y\<close> of the machine.\<close>

fun dneg :: "double \<Rightarrow> double" where
  "dneg (Fin x) = Fin (- x)"
| "dneg PInf = NInf"
| "dneg NInf = PInf"
| "dneg NaN = NaN"

fun dadd :: "double \<Rightarrow> double \<Rightarrow> double" where
  "dadd NaN y = NaN"
| "dadd x NaN = NaN"
| "dadd PInf NInf = NaN"
| "dadd NInf PInf = NaN"
| "dadd PInf y = PInf"
| "dadd x PInf = PInf"
| "dadd NInf y = NInf"
| "dadd x NInf = NInf"
| "dadd (Fin x) (Fin y) = rnd (x + y)"

definition dsub :: "double \<Rightarrow> double \<Rightarrow> double" where
  "dsub x y = dadd x (dneg y)"

fun dmul :: "double \<Rightarrow> double \<Rightarrow> double" where
  "dmul NaN y = NaN"
| "dmul x NaN = NaN"
| "dmul (Fin x) (Fin y) = rnd (x * y)"
| "dmul (Fin x) PInf = (if x = 0 then NaN else if 0 < x then PInf else NInf)"
| "dmul (Fin x) NInf = (if x = 0 then NaN else if 0 < x then NInf else PInf)"
| "dmul PInf (Fin y) = (if y = 0 then NaN else if 0 < y then PInf else NInf)"
| "dmul NInf (Fin y) = (if y = 0 then NaN else if 0 < y then NInf else PInf)"
| "dmul PInf PInf = PInf"
| "dmul PInf NInf = NInf"
| "dmul NInf PInf = NInf"
| "dmul NInf NInf = PInf"

fun ddiv :: "double \<Rightarrow> double \<Rightarrow> double" where
  "ddiv NaN y = NaN"
| "ddiv x NaN = NaN"
| "ddiv (Fin x) (Fin y) =
     (if y = 0 then (if x = 0 then NaN else if 0 < x then PInf else NInf)
      else rnd (x / y))"
| "ddiv (Fin x) PInf = Fin 0"
| "ddiv (Fin x) NInf = Fin 0"
| "ddiv PInf (Fin y) = (if 0 \<le> y then PInf else NInf)"
| "ddiv NInf (Fin y) = (if 0 \<le> y then NInf else PInf)"
| "ddiv PInf PInf = NaN"
| "ddiv PInf NInf = NaN"
| "ddiv NInf PInf = NaN"
| "ddiv NInf NInf = NaN"




section \<open>Operating-mode scheduler\<close>


record Scheduler =
  d1 :: double
  d2 :: double
  d3 :: double
  d4 :: double








section \<open>Mesh\<close>

text \<open>
  Modelled from the spec: the mesh classes (\<open>mesh.hpp\<close>, \<open>mesh1d.hpp\<close>) are not among the
  sources. A one-dimensional mesh has its cells in ascending order, indexed from 0, one
  face between neighbouring cells and one at each end of the domain: face \<open>f\<close> has the
  cell \<open>f - 1\<close> on its minus side and the cell \<open>f\<close> on its plus side, and a neighbour
  that does not exist (\<open>IsNone\<close>) is \<open>None\<close>. Cell centres and volumes are parameters.
\<close>

record Mesh =
  GetNumCells :: nat
  GetCenter :: "nat \<Rightarrow> Scal"
  GetVolume :: "nat \<Rightarrow> Scal"

definition Cells :: "Mesh \<Rightarrow> nat list" where
  "Cells m = [0..<GetNumCells m]"

definition Faces :: "Mesh \<Rightarrow> nat list" where
  "Faces m = [0..<Suc (GetNumCells m)]"

definition GetNeighbourCell_face :: "Mesh \<Rightarrow> nat \<Rightarrow> nat \<Rightarrow> nat option" where
  "GetNeighbourCell_face m idxface side =
     (if side = 0 then (if idxface = 0 then None else Some (idxface - 1))
      else (if idxface < GetNumCells m then Some idxface else None))"

definition GetNeighbourCell :: "Mesh \<Rightarrow> nat \<Rightarrow> nat \<Rightarrow> nat option" where
  "GetNeighbourCell m idxcell side =
     (if side = 0 then (if idxcell = 0 then None else Some (idxcell - 1))
      else (if Suc idxcell < GetNumCells m then Some (Suc idxcell) else None))"

definition GetNeighbourFace :: "Mesh \<Rightarrow> nat \<Rightarrow> nat \<Rightarrow> nat" where
  "GetNeighbourFace m idxcell side = (if side = 0 then idxcell else Suc idxcell)"

text \<open>
  Modelled from the spec: \<open>geom::InitUniformMesh\<close> is not among the sources. The domain
  \<open>[a, b]\<close> is cut into \<open>n\<close> cells of equal volume.
\<close>

definition InitUniformMesh :: "Scal \<Rightarrow> Scal \<Rightarrow> nat \<Rightarrow> Mesh" where
  "InitUniformMesh a b n =
     \<lparr>GetNumCells = n,
      GetCenter = (\<lambda>i. a + (real i + 1 / 2) * ((b - a) / real n)),
      GetVolume = (\<lambda>i. (b - a) / real n)\<rparr>"

section \<open>Transport solver\<close>

text \<open>A cell or face field is the list of its values in index order.\<close>

type_synonym FieldCell = "Scal list"

type_synonym FieldFace = "Scal list"

record 'a LayersData =
  time_curr :: 'a
  time_prev :: 'a

text \<open>
  The state of \<open>HeatStorage\<close>. A source-field pointer is \<open>None\<close> when null and the field
  it points to otherwise.
\<close>

record HeatStorage =
  mesh :: Mesh
  time_step :: Scal
  fc_temperature_fluid :: "FieldCell LayersData"
  fc_temperature_solid :: "FieldCell LayersData"
  fluid_velocity :: Scal
  conductivity_fluid :: Scal
  conductivity_solid :: Scal
  temperature_hot :: Scal
  temperature_cold :: Scal
  exchange_fluid :: Scal
  exchange_solid :: Scal
  p_fc_rhs_fluid :: "FieldCell option"
  p_fc_rhs_solid :: "FieldCell option"

text \<open>The constructor: all four layers are initialised to the cold temperature.\<close>

definition HeatStorage_ctor ::
  "Mesh \<Rightarrow> Scal \<Rightarrow> Scal \<Rightarrow> Scal \<Rightarrow> Scal \<Rightarrow> Scal \<Rightarrow> Scal \<Rightarrow> Scal \<Rightarrow> Scal \<Rightarrow>
   FieldCell option \<Rightarrow> FieldCell option \<Rightarrow> HeatStorage" where
  "HeatStorage_ctor m dt uf alpha_f alpha_s T_hot T_cold ex_f ex_s rhs_f rhs_s =
     \<lparr>mesh = m, time_step = dt,
      fc_temperature_fluid =
        \<lparr>time_curr = replicate (GetNumCells m) T_cold,
         time_prev = replicate (GetNumCells m) T_cold\<rparr>,
      fc_temperature_solid =
        \<lparr>time_curr = replicate (GetNumCells m) T_cold,
         time_prev = replicate (GetNumCells m) T_cold\<rparr>,
      fluid_velocity = uf, conductivity_fluid = alpha_f, conductivity_solid = alpha_s,
      temperature_hot = T_hot, temperature_cold = T_cold,
      exchange_fluid = ex_f, exchange_solid = ex_s,
      p_fc_rhs_fluid = rhs_f, p_fc_rhs_solid = rhs_s\<rparr>"

definition swap_layers :: "'a LayersData \<Rightarrow> 'a LayersData" where
  "swap_layers l = \<lparr>time_curr = time_prev l, time_prev = time_curr l\<rparr>"

text \<open>
  The body of the loop over the faces in \<open>CalcStep\<close>: the fluxes of one face are added
  to the two face fields.
\<close>

definition CalcStep_face ::
  "Mesh \<Rightarrow> Scal \<Rightarrow> Scal \<Rightarrow> Scal \<Rightarrow> Scal \<Rightarrow> Scal \<Rightarrow> FieldCell \<Rightarrow> FieldCell \<Rightarrow>
   nat \<Rightarrow> FieldFace \<times> FieldFace \<Rightarrow> FieldFace \<times> FieldFace" where
  "CalcStep_face m h uf alpha_f alpha_s T_in Tf Ts idxface ff =
     (let ff_flux_fluid = fst ff; ff_flux_solid = snd ff in
      case GetNeighbourCell_face m idxface 0 of
        None \<Rightarrow>
          (ff_flux_fluid[idxface := ff_flux_fluid ! idxface + uf * T_in],
           ff_flux_solid[idxface := ff_flux_solid ! idxface + 0])
      | Some cm \<Rightarrow>
          (case GetNeighbourCell_face m idxface 1 of
             None \<Rightarrow>
               (ff_flux_fluid[idxface := ff_flux_fluid ! idxface + uf * Tf ! cm],
                ff_flux_solid[idxface := ff_flux_solid ! idxface + 0])
           | Some cp \<Rightarrow>
               (ff_flux_fluid[idxface :=
                  ff_flux_fluid ! idxface + uf * Tf ! cm
                    + - alpha_f * (Tf ! cp - Tf ! cm) / h],
                ff_flux_solid[idxface :=
                  ff_flux_solid ! idxface + - alpha_s * (Ts ! cp - Ts ! cm) / h])))"

text \<open>The body of the loop over the cells that integrates the flux terms.\<close>

definition CalcStep_cell ::
  "Mesh \<Rightarrow> Scal \<Rightarrow> Scal \<Rightarrow> FieldCell \<Rightarrow> FieldCell \<Rightarrow> FieldFace \<Rightarrow> FieldFace \<Rightarrow>
   nat \<Rightarrow> FieldCell \<times> FieldCell \<Rightarrow> FieldCell \<times> FieldCell" where
  "CalcStep_cell m h dt Tf Ts ff_flux_fluid ff_flux_solid idxcell new =
     (let fm = GetNeighbourFace m idxcell 0;
          fp = GetNeighbourFace m idxcell 1;
          fluxsum_fluid = ff_flux_fluid ! fp - ff_flux_fluid ! fm;
          fluxsum_solid = ff_flux_solid ! fp - ff_flux_solid ! fm
      in ((fst new)[idxcell := Tf ! idxcell - dt / h * fluxsum_fluid],
          (snd new)[idxcell := Ts ! idxcell - dt / h * fluxsum_solid]))"

text \<open>The loop that integrates a source term, run when the pointer is not null.\<close>

definition CalcStep_source :: "Mesh \<Rightarrow> Scal \<Rightarrow> FieldCell option \<Rightarrow> FieldCell \<Rightarrow> FieldCell" where
  "CalcStep_source m dt p_fc_rhs T_new =
     (case p_fc_rhs of
        None \<Rightarrow> T_new
      | Some fc_rhs \<Rightarrow>
          fold (\<lambda>idxcell T. T[idxcell := T ! idxcell + dt * fc_rhs ! idxcell]) (Cells m) T_new)"

text \<open>
  \<open>HeatStorage::CalcStep\<close>. After the two swaps \<open>Tf\<close> and \<open>Ts\<close> (the previous layers) hold
  what was current, and the new values are written into the current layers.
\<close>

definition CalcStep :: "HeatStorage \<Rightarrow> HeatStorage" where
  "CalcStep s =
     (let fluid = swap_layers (fc_temperature_fluid s);
          Tf = time_prev fluid;
          Tf_new = time_curr fluid;
          solid = swap_layers (fc_temperature_solid s);
          Ts = time_prev solid;
          Ts_new = time_curr solid;
          h = GetVolume (mesh s) 0;
          dt = time_step s;
          uf = fluid_velocity s;
          alpha_f = conductivity_fluid s;
          alpha_s = conductivity_solid s;
          T_in = temperature_hot s;
          ff = fold (CalcStep_face (mesh s) h uf alpha_f alpha_s T_in Tf Ts) (Faces (mesh s))
                 (replicate (length (Faces (mesh s))) 0,
                  replicate (length (Faces (mesh s))) 0);
          new = fold (CalcStep_cell (mesh s) h dt Tf Ts (fst ff) (snd ff)) (Cells (mesh s))
                  (Tf_new, Ts_new);
          Tf_new = CalcStep_source (mesh s) dt (p_fc_rhs_fluid s) (fst new);
          Ts_new = CalcStep_source (mesh s) dt (p_fc_rhs_solid s) (snd new)
      in s\<lparr>fc_temperature_fluid := fluid\<lparr>time_curr := Tf_new\<rparr>,
           fc_temperature_solid := solid\<lparr>time_curr := Ts_new\<rparr>\<rparr>)"

text \<open>
  What the solver relies on without checking: a mesh with at least one cell and a
  non-zero cell volume, fields of the size of the mesh.
\<close>

definition source_ok :: "nat \<Rightarrow> FieldCell option \<Rightarrow> bool" where
  "source_ok n p = (case p of None \<Rightarrow> True | Some fc \<Rightarrow> length fc = n)"

definition solver_ok :: "HeatStorage \<Rightarrow> bool" where
  "solver_ok s =
     (0 < GetNumCells (mesh s) \<and> GetVolume (mesh s) 0 \<noteq> 0 \<and>
      length (time_curr (fc_temperature_fluid s)) = GetNumCells (mesh s) \<and>
      length (time_prev (fc_temperature_fluid s)) = GetNumCells (mesh s) \<and>
      length (time_curr (fc_temperature_solid s)) = GetNumCells (mesh s) \<and>
      length (time_prev (fc_temperature_solid s)) = GetNumCells (mesh s) \<and>
      source_ok (GetNumCells (mesh s)) (p_fc_rhs_fluid s) \<and>
      source_ok (GetNumCells (mesh s)) (p_fc_rhs_solid s))"

text \<open>
  The reference update in the words of the specification: the fluxes of a face from the
  previous-layer values, and the new value of a cell.
\<close>

definition spec_flux_fluid :: "HeatStorage \<Rightarrow> FieldCell \<Rightarrow> nat \<Rightarrow> Scal" where
  "spec_flux_fluid s T f =
     (if f = 0 then fluid_velocity s * temperature_hot s
      else if f = GetNumCells (mesh s) then fluid_velocity s * T ! (f - 1)
      else fluid_velocity s * T ! (f - 1)
             - conductivity_fluid s * (T ! f - T ! (f - 1)) / GetVolume (mesh s) 0)"

definition spec_flux_solid :: "HeatStorage \<Rightarrow> FieldCell \<Rightarrow> nat \<Rightarrow> Scal" where
  "spec_flux_solid s T f =
     (if f = 0 then 0
      else if f = GetNumCells (mesh s) then 0
      else - (conductivity_solid s * (T ! f - T ! (f - 1)) / GetVolume (mesh s) 0))"

definition spec_source :: "Scal \<Rightarrow> FieldCell option \<Rightarrow> nat \<Rightarrow> Scal \<Rightarrow> Scal" where
  "spec_source dt p i v = (case p of None \<Rightarrow> v | Some fc \<Rightarrow> v + dt * fc ! i)"

definition spec_new_fluid :: "HeatStorage \<Rightarrow> nat \<Rightarrow> Scal" where
  "spec_new_fluid s i =
     (let T = time_curr (fc_temperature_fluid s) in
      spec_source (time_step s) (p_fc_rhs_fluid s) i
        (T ! i - time_step s / GetVolume (mesh s) 0
                   * (spec_flux_fluid s T (Suc i) - spec_flux_fluid s T i)))"

definition spec_new_solid :: "HeatStorage \<Rightarrow> nat \<Rightarrow> Scal" where
  "spec_new_solid s i =
     (let T = time_curr (fc_temperature_solid s) in
      spec_source (time_step s) (p_fc_rhs_solid s) i
        (T ! i - time_step s / GetVolume (mesh s) 0
                   * (spec_flux_solid s T (Suc i) - spec_flux_solid s T i)))"

definition spec_step :: "HeatStorage \<Rightarrow> HeatStorage" where
  "spec_step s =
     s\<lparr>fc_temperature_fluid :=
         \<lparr>time_curr = map (spec_new_fluid s) [0..<GetNumCells (mesh s)],
          time_prev = time_curr (fc_temperature_fluid s)\<rparr>,
       fc_temperature_solid :=
         \<lparr>time_curr = map (spec_new_solid s) [0..<GetNumCells (mesh s)],
          time_prev = time_curr (fc_temperature_solid s)\<rparr>\<rparr>"



section \<open>Transport solver in binary64 arithmetic\<close>

text \<open>
  The solver once more, with the scalars of the machine: every operation of \<open>CalcStep\<close>
  is the binary64 operation, in the order of the source. Names carry the suffix
  \<open>_fp\<close>. The mesh gives the number of cells, the neighbours and the cell volume.
\<close>

type_synonym FieldCell_fp = "double list"

type_synonym FieldFace_fp = "double list"

record Mesh_fp =
  GetNumCells_fp :: nat
  GetVolume_fp :: "nat \<Rightarrow> double"

definition Cells_fp :: "Mesh_fp \<Rightarrow> nat list" where
  "Cells_fp m = [0..<GetNumCells_fp m]"

definition Faces_fp :: "Mesh_fp \<Rightarrow> nat list" where
  "Faces_fp m = [0..<Suc (GetNumCells_fp m)]"

definition GetNeighbourCell_face_fp :: "Mesh_fp \<Rightarrow> nat \<Rightarrow> nat \<Rightarrow> nat option" where
  "GetNeighbourCell_face_fp m idxface side =
     (if side = 0 then (if idxface = 0 then None else Some (idxface - 1))
      else (if idxface < GetNumCells_fp m then Some idxface else None))"

definition GetNeighbourFace_fp :: "Mesh_fp \<Rightarrow> nat \<Rightarrow> nat \<Rightarrow> nat" where
  "GetNeighbourFace_fp m idxcell side = (if side = 0 then idxcell else Suc idxcell)"

text \<open>The state of \<open>HeatStorage\<close>, its constructor and the loops of \<open>CalcStep\<close>.\<close>

record HeatStorage_fp =
  mesh_fp :: Mesh_fp
  time_step_fp :: double
  fc_temperature_fluid_fp :: "FieldCell_fp LayersData"
  fc_temperature_solid_fp :: "FieldCell_fp LayersData"
  fluid_velocity_fp :: double
  conductivity_fluid_fp :: double
  conductivity_solid_fp :: double
  temperature_hot_fp :: double
  temperature_cold_fp :: double
  exchange_fluid_fp :: double
  exchange_solid_fp :: double
  p_fc_rhs_fluid_fp :: "FieldCell_fp option"
  p_fc_rhs_solid_fp :: "FieldCell_fp option"

definition HeatStorage_ctor_fp ::
  "Mesh_fp \<Rightarrow> double \<Rightarrow> double \<Rightarrow> double \<Rightarrow> double \<Rightarrow> double \<Rightarrow> double \<Rightarrow> double \<Rightarrow> double \<Rightarrow>
   FieldCell_fp option \<Rightarrow> FieldCell_fp option \<Rightarrow> HeatStorage_fp" where
  "HeatStorage_ctor_fp m dt uf alpha_f alpha_s T_hot T_cold ex_f ex_s rhs_f rhs_s =
     \<lparr>mesh_fp = m, time_step_fp = dt,
      fc_temperature_fluid_fp =
        \<lparr>time_curr = replicate (GetNumCells_fp m) T_cold,
         time_prev = replicate (GetNumCells_fp m) T_cold\<rparr>,
      fc_temperature_solid_fp =
        \<lparr>time_curr = replicate (GetNumCells_fp m) T_cold,
         time_prev = replicate (GetNumCells_fp m) T_cold\<rparr>,
      fluid_velocity_fp = uf, conductivity_fluid_fp = alpha_f, conductivity_solid_fp = alpha_s,
      temperature_hot_fp = T_hot, temperature_cold_fp = T_cold,
      exchange_fluid_fp = ex_f, exchange_solid_fp = ex_s,
      p_fc_rhs_fluid_fp = rhs_f, p_fc_rhs_solid_fp = rhs_s\<rparr>"

text \<open>
  The body of the loop over the faces. In an interior face the fluid flux is updated by
  two statements, \<open>flux += uf * Tf[cm]\<close> and \<open>flux += -alpha_f * (Tf[cp] - Tf[cm]) / h\<close>,
  the second evaluated as \<open>((-alpha_f) * (Tf[cp] - Tf[cm])) / h\<close>.
\<close>

definition CalcStep_face_fp ::
  "Mesh_fp \<Rightarrow> double \<Rightarrow> double \<Rightarrow> double \<Rightarrow> double \<Rightarrow> double \<Rightarrow> FieldCell_fp \<Rightarrow> FieldCell_fp \<Rightarrow>
   nat \<Rightarrow> FieldFace_fp \<times> FieldFace_fp \<Rightarrow> FieldFace_fp \<times> FieldFace_fp" where
  "CalcStep_face_fp m h uf alpha_f alpha_s T_in Tf Ts idxface ff =
     (let ff_flux_fluid = fst ff; ff_flux_solid = snd ff in
      case GetNeighbourCell_face_fp m idxface 0 of
        None \<Rightarrow>
          (ff_flux_fluid[idxface := dadd (ff_flux_fluid ! idxface) (dmul uf T_in)],
           ff_flux_solid[idxface := dadd (ff_flux_solid ! idxface) (Fin 0)])
      | Some cm \<Rightarrow>
          (case GetNeighbourCell_face_fp m idxface 1 of
             None \<Rightarrow>
               (ff_flux_fluid[idxface := dadd (ff_flux_fluid ! idxface) (dmul uf (Tf ! cm))],
                ff_flux_solid[idxface := dadd (ff_flux_solid ! idxface) (Fin 0)])
           | Some cp \<Rightarrow>
               (ff_flux_fluid[idxface :=
                  dadd (dadd (ff_flux_fluid ! idxface) (dmul uf (Tf ! cm)))
                    (ddiv (dmul (dneg alpha_f) (dsub (Tf ! cp) (Tf ! cm))) h)],
                ff_flux_solid[idxface :=
                  dadd (ff_flux_solid ! idxface)
                    (ddiv (dmul (dneg alpha_s) (dsub (Ts ! cp) (Ts ! cm))) h)])))"

text \<open>
  The body of the loop over the cells: \<open>Tf_new[idxcell] = Tf[idxcell] - dt / h * fluxsum\<close>
  is evaluated as \<open>Tf[idxcell] - ((dt / h) * fluxsum)\<close>.
\<close>

definition CalcStep_cell_fp ::
  "Mesh_fp \<Rightarrow> double \<Rightarrow> double \<Rightarrow> FieldCell_fp \<Rightarrow> FieldCell_fp \<Rightarrow> FieldFace_fp \<Rightarrow> FieldFace_fp \<Rightarrow>
   nat \<Rightarrow> FieldCell_fp \<times> FieldCell_fp \<Rightarrow> FieldCell_fp \<times> FieldCell_fp" where
  "CalcStep_cell_fp m h dt Tf Ts ff_flux_fluid ff_flux_solid idxcell new =
     (let fm = GetNeighbourFace_fp m idxcell 0;
          fp = GetNeighbourFace_fp m idxcell 1;
          fluxsum_fluid = dsub (ff_flux_fluid ! fp) (ff_flux_fluid ! fm);
          fluxsum_solid = dsub (ff_flux_solid ! fp) (ff_flux_solid ! fm)
      in ((fst new)[idxcell := dsub (Tf ! idxcell) (dmul (ddiv dt h) fluxsum_fluid)],
          (snd new)[idxcell := dsub (Ts ! idxcell) (dmul (ddiv dt h) fluxsum_solid)]))"

definition CalcStep_source_fp ::
  "Mesh_fp \<Rightarrow> double \<Rightarrow> FieldCell_fp option \<Rightarrow> FieldCell_fp \<Rightarrow> FieldCell_fp" where
  "CalcStep_source_fp m dt p_fc_rhs T_new =
     (case p_fc_rhs of
        None \<Rightarrow> T_new
      | Some fc_rhs \<Rightarrow>
          fold (\<lambda>idxcell T. T[idxcell := dadd (T ! idxcell) (dmul dt (fc_rhs ! idxcell))])
            (Cells_fp m) T_new)"

definition CalcStep_fp :: "HeatStorage_fp \<Rightarrow> HeatStorage_fp" where
  "CalcStep_fp s =
     (let fluid = swap_layers (fc_temperature_fluid_fp s);
          Tf = time_prev fluid;
          Tf_new = time_curr fluid;
          solid = swap_layers (fc_temperature_solid_fp s);
          Ts = time_prev solid;
          Ts_new = time_curr solid;
          h = GetVolume_fp (mesh_fp s) 0;
          dt = time_step_fp s;
          uf = fluid_velocity_fp s;
          alpha_f = conductivity_fluid_fp s;
          alpha_s = conductivity_solid_fp s;
          T_in = temperature_hot_fp s;
          ff = fold (CalcStep_face_fp (mesh_fp s) h uf alpha_f alpha_s T_in Tf Ts)
                 (Faces_fp (mesh_fp s))
                 (replicate (length (Faces_fp (mesh_fp s))) (Fin 0),
                  replicate (length (Faces_fp (mesh_fp s))) (Fin 0));
          new = fold (CalcStep_cell_fp (mesh_fp s) h dt Tf Ts (fst ff) (snd ff))
                  (Cells_fp (mesh_fp s)) (Tf_new, Ts_new);
          Tf_new = CalcStep_source_fp (mesh_fp s) dt (p_fc_rhs_fluid_fp s) (fst new);
          Ts_new = CalcStep_source_fp (mesh_fp s) dt (p_fc_rhs_solid_fp s) (snd new)
      in s\<lparr>fc_temperature_fluid_fp := fluid\<lparr>time_curr := Tf_new\<rparr>,
           fc_temperature_solid_fp := solid\<lparr>time_curr := Ts_new\<rparr>\<rparr>)"

text \<open>Fields of the size of a mesh with at least one cell.\<close>

definition source_ok_fp :: "nat \<Rightarrow> FieldCell_fp option \<Rightarrow> bool" where
  "source_ok_fp n p = (case p of None \<Rightarrow> True | Some fc \<Rightarrow> length fc = n)"

definition solver_ok_fp :: "HeatStorage_fp \<Rightarrow> bool" where
  "solver_ok_fp s =
     (0 < GetNumCells_fp (mesh_fp s) \<and>
      length (time_curr (fc_temperature_fluid_fp s)) = GetNumCells_fp (mesh_fp s) \<and>
      length (time_prev (fc_temperature_fluid_fp s)) = GetNumCells_fp (mesh_fp s) \<and>
      length (time_curr (fc_temperature_solid_fp s)) = GetNumCells_fp (mesh_fp s) \<and>
      length (time_prev (fc_temperature_solid_fp s)) = GetNumCells_fp (mesh_fp s) \<and>
      source_ok_fp (GetNumCells_fp (mesh_fp s)) (p_fc_rhs_fluid_fp s) \<and>
      source_ok_fp (GetNumCells_fp (mesh_fp s)) (p_fc_rhs_solid_fp s))"

text \<open>A finite value of the machine: neither an infinity nor a NaN.\<close>

fun finite_double :: "double \<Rightarrow> bool" where
  "finite_double (Fin x) = is_double x"
| "finite_double PInf = False"
| "finite_double NInf = False"
| "finite_double NaN = False"

text \<open>
  What the face loop leaves in a face that held \<open>v\<close>, what the source loop leaves in a
  cell that held \<open>v\<close>, and with them the new value of a cell and the state after a step.
\<close>

definition flux_fluid_fp :: "HeatStorage_fp \<Rightarrow> FieldCell_fp \<Rightarrow> nat \<Rightarrow> double \<Rightarrow> double" where
  "flux_fluid_fp s T f v =
     (if f = 0 then dadd v (dmul (fluid_velocity_fp s) (temperature_hot_fp s))
      else if f < GetNumCells_fp (mesh_fp s)
        then dadd (dadd v (dmul (fluid_velocity_fp s) (T ! (f - 1))))
               (ddiv (dmul (dneg (conductivity_fluid_fp s)) (dsub (T ! f) (T ! (f - 1))))
                  (GetVolume_fp (mesh_fp s) 0))
      else dadd v (dmul (fluid_velocity_fp s) (T ! (f - 1))))"

definition flux_solid_fp :: "HeatStorage_fp \<Rightarrow> FieldCell_fp \<Rightarrow> nat \<Rightarrow> double \<Rightarrow> double" where
  "flux_solid_fp s T f v =
     (if f = 0 then dadd v (Fin 0)
      else if f < GetNumCells_fp (mesh_fp s)
        then dadd v
               (ddiv (dmul (dneg (conductivity_solid_fp s)) (dsub (T ! f) (T ! (f - 1))))
                  (GetVolume_fp (mesh_fp s) 0))
      else dadd v (Fin 0))"

definition source_fp :: "double \<Rightarrow> FieldCell_fp option \<Rightarrow> nat \<Rightarrow> double \<Rightarrow> double" where
  "source_fp dt p i v = (case p of None \<Rightarrow> v | Some fc \<Rightarrow> dadd v (dmul dt (fc ! i)))"

definition new_fluid_fp :: "HeatStorage_fp \<Rightarrow> nat \<Rightarrow> double" where
  "new_fluid_fp s i =
     (let T = time_curr (fc_temperature_fluid_fp s) in
      source_fp (time_step_fp s) (p_fc_rhs_fluid_fp s) i
        (dsub (T ! i)
           (dmul (ddiv (time_step_fp s) (GetVolume_fp (mesh_fp s) 0))
              (dsub (flux_fluid_fp s T (Suc i) (Fin 0)) (flux_fluid_fp s T i (Fin 0))))))"

definition new_solid_fp :: "HeatStorage_fp \<Rightarrow> nat \<Rightarrow> double" where
  "new_solid_fp s i =
     (let T = time_curr (fc_temperature_solid_fp s) in
      source_fp (time_step_fp s) (p_fc_rhs_solid_fp s) i
        (dsub (T ! i)
           (dmul (ddiv (time_step_fp s) (GetVolume_fp (mesh_fp s) 0))
              (dsub (flux_solid_fp s T (Suc i) (Fin 0)) (flux_solid_fp s T i (Fin 0))))))"

definition step_fp :: "HeatStorage_fp \<Rightarrow> HeatStorage_fp" where
  "step_fp s =
     s\<lparr>fc_temperature_fluid_fp :=
         \<lparr>time_curr = map (new_fluid_fp s) [0..<GetNumCells_fp (mesh_fp s)],
          time_prev = time_curr (fc_temperature_fluid_fp s)\<rparr>,
       fc_temperature_solid_fp :=
         \<lparr>time_curr = map (new_solid_fp s) [0..<GetNumCells_fp (mesh_fp s)],
          time_prev = time_curr (fc_temperature_solid_fp s)\<rparr>\<rparr>"

text \<open>A source that is absent or zero in every cell.\<close>

definition zero_source_fp :: "nat \<Rightarrow> FieldCell_fp option \<Rightarrow> bool" where
  "zero_source_fp n p = (p = None \<or> p = Some (replicate n (Fin 0)))"

text \<open>
  A field whose values and whose differences of neighbouring values, as the machine
  computes them, are all finite.
\<close>

definition no_overflow :: "FieldCell_fp \<Rightarrow> bool" where
  "no_overflow T =
     ((\<forall>i < length T. finite_double (T ! i)) \<and>
      (\<forall>i. Suc i < length T \<longrightarrow> finite_double (dsub (T ! Suc i) (T ! i))))"

text \<open>
  No advection, no conduction and no source, and nothing that overflows: a finite inflow
  temperature, a finite quotient \<open>dt / h\<close>, fields without overflow.
\<close>

definition at_rest_fp :: "HeatStorage_fp \<Rightarrow> bool" where
  "at_rest_fp s =
     (solver_ok_fp s \<and> fluid_velocity_fp s = Fin 0 \<and> conductivity_fluid_fp s = Fin 0 \<and>
      conductivity_solid_fp s = Fin 0 \<and>
      zero_source_fp (GetNumCells_fp (mesh_fp s)) (p_fc_rhs_fluid_fp s) \<and>
      zero_source_fp (GetNumCells_fp (mesh_fp s)) (p_fc_rhs_solid_fp s) \<and>
      finite_double (temperature_hot_fp s) \<and>
      finite_double (ddiv (time_step_fp s) (GetVolume_fp (mesh_fp s) 0)) \<and>
      no_overflow (time_curr (fc_temperature_fluid_fp s)) \<and>
      no_overflow (time_curr (fc_temperature_solid_fp s)))"

text \<open>
  A solver on two cells of volume \<open>h\<close> with given parameters, sources and current fluid
  field; the other layers are at the cold temperature 1.
\<close>

definition example_solver_fp ::
  "double \<Rightarrow> double \<Rightarrow> double \<Rightarrow> double \<Rightarrow> double \<Rightarrow> double \<Rightarrow>
   FieldCell_fp option \<Rightarrow> FieldCell_fp option \<Rightarrow> FieldCell_fp \<Rightarrow> HeatStorage_fp" where
  "example_solver_fp h dt uf alpha_f alpha_s T_hot rhs_f rhs_s Tf =
     (HeatStorage_ctor_fp \<lparr>GetNumCells_fp = 2, GetVolume_fp = (\<lambda>i. h)\<rparr> dt uf alpha_f alpha_s
        T_hot (Fin 1) (Fin 0) (Fin 0) rhs_f rhs_s)
       \<lparr>fc_temperature_fluid_fp := \<lparr>time_curr = Tf, time_prev = [Fin 1, Fin 1]\<rparr>\<rparr>"

section \<open>Mesh interpolator\<close>

text \<open>
  A field whose cells may hold the result of a division by zero: \<open>None\<close> is a value that
  is not a real number.
\<close>

type_synonym FieldCellNaN = "Scal option list"

text \<open>
  \<open>GetInterpolated\<close> on scalars: the linear interpolation formula. The divisor is zero
  when the two bracket coordinates coincide.
\<close>

definition GetInterpolated_scal :: "Scal \<Rightarrow> Scal \<Rightarrow> Scal \<Rightarrow> Scal \<Rightarrow> Scal \<Rightarrow> Scal option" where
  "GetInterpolated_scal x x_left x_right u_left u_right =
     (if x_right - x_left = 0 then None
      else Some (((x - x_left) * u_right + (x_right - x) * u_left) / (x_right - x_left)))"

text \<open>
  The \<open>while\<close> loop of \<open>GetInterpolated\<close> on fields: the bracket moves one cell to the
  right as long as the centre of its right cell is below the destination coordinate and
  a right neighbour exists.
\<close>

function advance_bracket :: "Mesh \<Rightarrow> Scal \<Rightarrow> nat \<Rightarrow> nat \<Rightarrow> nat \<times> nat" where
  "advance_bracket mesh_src x_dest idx_left_src idx_right_src =
     (if GetCenter mesh_src idx_right_src < x_dest then
        (case GetNeighbourCell mesh_src idx_right_src 1 of
           None \<Rightarrow> (idx_left_src, idx_right_src)
         | Some idx_new_src \<Rightarrow> advance_bracket mesh_src x_dest idx_right_src idx_new_src)
      else (idx_left_src, idx_right_src))"
  by pat_completeness auto
termination
  by (relation "measure (\<lambda>(mesh_src, x_dest, l, r). GetNumCells mesh_src - r)")
     (auto simp: GetNeighbourCell_def split: if_splits)

text \<open>
  The \<open>for\<close> loop over the destination cells, with the bracket carried from one cell to
  the next.
\<close>

fun GetInterpolated_loop ::
  "FieldCell \<Rightarrow> Mesh \<Rightarrow> Mesh \<Rightarrow> nat list \<Rightarrow> nat \<times> nat \<Rightarrow> FieldCellNaN \<Rightarrow> FieldCellNaN" where
  "GetInterpolated_loop fc_src mesh_src mesh_dest [] br res = res"
| "GetInterpolated_loop fc_src mesh_src mesh_dest (idx_dest # rest) br res =
     (let x_dest = GetCenter mesh_dest idx_dest;
          br' = advance_bracket mesh_src x_dest (fst br) (snd br);
          idx_left_src = fst br';
          idx_right_src = snd br'
      in GetInterpolated_loop fc_src mesh_src mesh_dest rest br'
           (res[idx_dest :=
              GetInterpolated_scal x_dest
                (GetCenter mesh_src idx_left_src) (GetCenter mesh_src idx_right_src)
                (fc_src ! idx_left_src) (fc_src ! idx_right_src)]))"

text \<open>
  \<open>GetInterpolated\<close> on fields. The result field is created with the size of the
  destination mesh (its initial values are all overwritten) and the bracket starts at
  cell 0 on both sides.
\<close>

definition GetInterpolated :: "FieldCell \<Rightarrow> Mesh \<Rightarrow> Mesh \<Rightarrow> FieldCellNaN" where
  "GetInterpolated fc_src mesh_src mesh_dest =
     GetInterpolated_loop fc_src mesh_src mesh_dest (Cells mesh_dest) (0, 0)
       (replicate (GetNumCells mesh_dest) (Some 0))"

text \<open>
  What the interpolator relies on without checking: the centres of the source cells
  ascend with the cell index. A bracket is either the initial pair of cell 0 with itself
  or two neighbouring cells.
\<close>

definition mesh_ascending :: "Mesh \<Rightarrow> bool" where
  "mesh_ascending m = (\<forall>j < GetNumCells m. \<forall>i < j. GetCenter m i < GetCenter m j)"

definition bracket_ok :: "Mesh \<Rightarrow> nat \<times> nat \<Rightarrow> bool" where
  "bracket_ok m br =
     (snd br < GetNumCells m \<and> (fst br = 0 \<and> snd br = 0 \<or> Suc (fst br) = snd br))"

text \<open>
  The cell to the left of the right bracket cell, if there is one, lies below the
  coordinate \<open>x\<close>.
\<close>

definition bracket_behind :: "Mesh \<Rightarrow> nat \<times> nat \<Rightarrow> Scal \<Rightarrow> bool" where
  "bracket_behind m br x = (snd br = 0 \<or> GetCenter m (snd br - 1) < x)"

section \<open>Convergence tester\<close>

type_synonym FuncTX = "Scal \<Rightarrow> Scal \<Rightarrow> Scal"

text \<open>\<open>Evaluate\<close>: a function of time and position on the cell centres of a mesh.\<close>

definition Evaluate :: "FuncTX \<Rightarrow> Scal \<Rightarrow> Mesh \<Rightarrow> FieldCell" where
  "Evaluate func t m =
     fold (\<lambda>idxcell res. res[idxcell := func t (GetCenter m idxcell)]) (Cells m)
       (replicate (GetNumCells m) 0)"

text \<open>
  \<open>solver::CalcDiff\<close>, the difference norm of two fields on a mesh, is not among the
  sources: it is a parameter of the tester. It receives fields that may hold values
  that are not real numbers, and its result may be one. A comparison with such a result
  is false.
\<close>

type_synonym CalcDiffT = "FieldCellNaN \<Rightarrow> FieldCellNaN \<Rightarrow> Mesh \<Rightarrow> Scal option"

definition diff_less :: "Scal option \<Rightarrow> Scal \<Rightarrow> bool" where
  "diff_less d threshold = (case d of None \<Rightarrow> False | Some v \<Rightarrow> v < threshold)"

text \<open>
  Modelled from the spec: \<open>StartStep\<close> and \<open>FinishStep\<close> belong to the base class
  \<open>UnsteadySolver\<close>, which is not among the sources. They bracket one update and do no
  field arithmetic.
\<close>

definition StartStep :: "HeatStorage \<Rightarrow> HeatStorage" where
  "StartStep s = s"

definition FinishStep :: "HeatStorage \<Rightarrow> HeatStorage" where
  "FinishStep s = s"

text \<open>
  One record of \<open>TesterMms::series_\<close>. The member \<open>h\<close> of the source is never
  assigned and is left out. \<open>solver\<close> is the shared pointer: \<open>None\<close> when null, and
  otherwise the state of the solver it points to.
\<close>

record Entry =
  diff_prev :: "Scal option"
  error :: "Scal option"
  entry_mesh :: Mesh
  fc_fluid_temperature :: FieldCell
  fc_exact_fluid_temperature :: FieldCell
  solver :: "HeatStorage option"

text \<open>The record that \<open>emplace_back()\<close> appends: value-initialised members.\<close>

definition Entry_empty :: Entry where
  "Entry_empty =
     \<lparr>diff_prev = Some 0, error = Some 0,
      entry_mesh = \<lparr>GetNumCells = 0, GetCenter = (\<lambda>i. 0), GetVolume = (\<lambda>i. 0)\<rparr>,
      fc_fluid_temperature = [], fc_exact_fluid_temperature = [], solver = None\<rparr>"

text \<open>An assignment through the reference \<open>entry\<close>, which is \<open>series_.back()\<close>.\<close>

definition upd_back :: "(Entry \<Rightarrow> Entry) \<Rightarrow> Entry list \<Rightarrow> Entry list" where
  "upd_back f series = butlast series @ [f (last series)]"

text \<open>
  The loop over the time steps of one stage: it ends when the step budget is used up, or
  after the first step whose difference between the current and the previous fluid field
  is below the threshold (then with the number of that step).
\<close>

fun step_loop :: "CalcDiffT \<Rightarrow> Scal \<Rightarrow> nat list \<Rightarrow> HeatStorage \<Rightarrow> HeatStorage \<times> nat option" where
  "step_loop CalcDiff step_threshold [] s = (s, None)"
| "step_loop CalcDiff step_threshold (n # ns) s =
     (let s' = FinishStep (CalcStep (StartStep s)) in
      if diff_less
           (CalcDiff (map Some (time_curr (fc_temperature_fluid s')))
              (map Some (time_prev (fc_temperature_fluid s'))) (mesh s'))
           step_threshold
      then (s', Some n)
      else step_loop CalcDiff step_threshold ns s')"

text \<open>
  The body of the loop over the stages in the constructor of \<open>TesterMms\<close>, without the
  lines it writes to the statistics file and the field files. Every read of
  \<open>series_.back()\<close> and of \<open>entry\<close> is a read of the last record of the series at that
  point.
\<close>

definition TesterMms_stage ::
  "CalcDiffT \<Rightarrow> Scal \<Rightarrow> nat \<Rightarrow> Scal \<Rightarrow> Scal \<Rightarrow> Scal \<Rightarrow> Scal \<Rightarrow> Scal \<Rightarrow> FuncTX \<Rightarrow> FuncTX \<Rightarrow>
   nat \<Rightarrow> Entry list \<Rightarrow> Entry list" where
  "TesterMms_stage CalcDiff domain_length num_steps dt step_threshold uf conductivity Tleft
     func_rhs_fluid func_exact_fluid_temperature num_cells series =
     (let series1 = series @ [Entry_empty];
          m = InitUniformMesh 0 domain_length num_cells;
          series2 = upd_back (\<lambda>entry. entry\<lparr>entry_mesh := m\<rparr>) series1;
          fc_rhs_fluid = Evaluate func_rhs_fluid 0 m;
          fc_rhs_solid = replicate (GetNumCells m) 0;
          s0 = HeatStorage_ctor m dt uf conductivity conductivity Tleft Tleft 0 0
                 (Some fc_rhs_fluid) (Some fc_rhs_solid);
          s = fst (step_loop CalcDiff step_threshold [0..<num_steps] s0);
          series3 = upd_back (\<lambda>entry. entry\<lparr>solver := Some s\<rparr>) series2;
          series4 = upd_back (\<lambda>entry. entry\<lparr>fc_fluid_temperature :=
                       time_curr (fc_temperature_fluid s)\<rparr>) series3;
          series5 = upd_back (\<lambda>entry. entry\<lparr>diff_prev :=
                       (if series4 = [] then Some 0
                        else CalcDiff (map Some (fc_fluid_temperature entry))
                               (GetInterpolated (fc_fluid_temperature (last series4))
                                  (entry_mesh (last series4)) m)
                               m)\<rparr>) series4;
          series6 = upd_back (\<lambda>entry. entry\<lparr>fc_exact_fluid_temperature :=
                       Evaluate func_exact_fluid_temperature 0 m\<rparr>) series5
      in upd_back (\<lambda>entry. entry\<lparr>error :=
                       CalcDiff (map Some (fc_exact_fluid_temperature entry))
                         (map Some (fc_fluid_temperature entry)) m\<rparr>) series6)"

text \<open>
  The loop over the stages: the cell count is multiplied by the factor after every
  stage, in 64-bit \<open>size_t\<close> arithmetic.
\<close>

fun TesterMms_loop ::
  "CalcDiffT \<Rightarrow> nat \<Rightarrow> Scal \<Rightarrow> nat \<Rightarrow> Scal \<Rightarrow> Scal \<Rightarrow> Scal \<Rightarrow> Scal \<Rightarrow> Scal \<Rightarrow> FuncTX \<Rightarrow> FuncTX \<Rightarrow>
   nat list \<Rightarrow> nat \<Rightarrow> Entry list \<Rightarrow> Entry list" where
  "TesterMms_loop CalcDiff factor domain_length num_steps dt step_threshold uf conductivity
     Tleft func_rhs func_exact [] num_cells series = series"
| "TesterMms_loop CalcDiff factor domain_length num_steps dt step_threshold uf conductivity
     Tleft func_rhs func_exact (i # stages) num_cells series =
     TesterMms_loop CalcDiff factor domain_length num_steps dt step_threshold uf conductivity
       Tleft func_rhs func_exact stages (num_cells * factor mod 2 ^ 64)
       (TesterMms_stage CalcDiff domain_length num_steps dt step_threshold uf conductivity
          Tleft func_rhs func_exact num_cells series)"

text \<open>The constructor of \<open>TesterMms\<close>: the series it leaves in \<open>series_\<close>.\<close>

definition TesterMms ::
  "CalcDiffT \<Rightarrow> nat \<Rightarrow> nat \<Rightarrow> nat \<Rightarrow> Scal \<Rightarrow> nat \<Rightarrow> Scal \<Rightarrow> Scal \<Rightarrow> Scal \<Rightarrow> Scal \<Rightarrow> Scal \<Rightarrow>
   FuncTX \<Rightarrow> FuncTX \<Rightarrow> Entry list" where
  "TesterMms CalcDiff num_cells_initial num_stages factor domain_length num_steps dt
     step_threshold uf conductivity Tleft func_rhs_fluid func_exact_fluid_temperature =
     TesterMms_loop CalcDiff factor domain_length num_steps dt step_threshold uf conductivity
       Tleft func_rhs_fluid func_exact_fluid_temperature [0..<num_stages] num_cells_initial []"

text \<open>
  The comparison that a record of the series holds in \<open>diff_prev\<close>: its own fluid field
  against that same field interpolated from its own mesh onto its own mesh.
\<close>

definition diff_with_itself :: "CalcDiffT \<Rightarrow> Entry \<Rightarrow> bool" where
  "diff_with_itself CalcDiff e =
     (diff_prev e =
        CalcDiff (map Some (fc_fluid_temperature e))
          (GetInterpolated (fc_fluid_temperature e) (entry_mesh e) (entry_mesh e))
          (entry_mesh e))"

text \<open>
  What a difference norm does where both fields hold numbers: it is zero exactly when
  the two fields agree on every cell of the mesh that holds a number in both. A norm of
  this kind passes over the cells that hold no number; the largest absolute cell
  difference taken with a running maximum is one.
\<close>

definition agree_on :: "Mesh \<Rightarrow> FieldCellNaN \<Rightarrow> FieldCellNaN \<Rightarrow> bool" where
  "agree_on m a b =
     (\<forall>i < GetNumCells m. \<forall>x y. a ! i = Some x \<and> b ! i = Some y \<longrightarrow> x = y)"

definition norm_skipping_NaN :: "CalcDiffT \<Rightarrow> bool" where
  "norm_skipping_NaN CalcDiff = (\<forall>a b m. (CalcDiff a b m = Some 0) = agree_on m a b)"

text \<open>The other kind: a norm that is not a number as soon as a cell of a field is none.\<close>

definition norm_propagating_NaN :: "CalcDiffT \<Rightarrow> bool" where
  "norm_propagating_NaN CalcDiff =
     (\<forall>a b m. (\<exists>i < GetNumCells m. a ! i = None \<or> b ! i = None) \<longrightarrow> CalcDiff a b m = None)"

text \<open>
  The largest absolute cell difference, as a loop over the cells with a running maximum
  that a cell without a number leaves as it is.
\<close>

definition max_diff :: CalcDiffT where
  "max_diff a b m =
     Some (fold (\<lambda>idx res. case (a ! idx, b ! idx) of
                              (Some x, Some y) \<Rightarrow> max res \<bar>x - y\<bar>
                            | _ \<Rightarrow> res) (Cells m) 0)"

section \<open>Selection of the manufactured solution\<close>

text \<open>Modelled from the spec: the helper \<open>sqr\<close> is not among the sources; it squares.\<close>

definition sqr :: "Scal \<Rightarrow> Scal" where
  "sqr x = x * x"

text \<open>
  The selection in the constructor of \<open>hydro\<close>: the pair \<open>(func_exact, func_rhs)\<close> for a
  recognised name, and the thrown string otherwise.
\<close>

definition mms_functions :: "Scal \<Rightarrow> Scal \<Rightarrow> Scal \<Rightarrow> string \<Rightarrow> string + (FuncTX \<times> FuncTX)" where
  "mms_functions uf alpha wavenumber mmsfunc =
     (if mmsfunc = ''cos(kx)'' then
        Inr (\<lambda>t x. cos (x * wavenumber),
             \<lambda>t x. - uf * wavenumber * sin (x * wavenumber)
                      + alpha * sqr wavenumber * cos (x * wavenumber))
      else if mmsfunc = ''cos(kx^2)'' then
        Inr (\<lambda>t x. cos (sqr x * wavenumber),
             \<lambda>t x. - uf * wavenumber * 2 * x * sin (sqr x * wavenumber)
                      + alpha * (sqr wavenumber * 4 * sqr x * cos (sqr x * wavenumber)
                                 + wavenumber * 2 * sin (sqr x * wavenumber)))
      else Inl (''Unknown MMS_exact_solution: '' @ mmsfunc))"

text \<open>
  The block of the constructor of \<open>hydro\<close> that runs when the flag \<open>MMS\<close> is set: the
  selection, then the tester. The result is the thrown string, or the series of the
  tester (\<open>None\<close> when the flag is not set).
\<close>

definition hydro_MMS ::
  "CalcDiffT \<Rightarrow> bool \<Rightarrow> Scal \<Rightarrow> Scal \<Rightarrow> Scal \<Rightarrow> string \<Rightarrow> nat \<Rightarrow> nat \<Rightarrow> nat \<Rightarrow> Scal \<Rightarrow> nat \<Rightarrow>
   Scal \<Rightarrow> Scal \<Rightarrow> Scal \<Rightarrow> string + Entry list option" where
  "hydro_MMS CalcDiff flag_MMS uf alpha wavenumber mmsfunc MMS_mesh_initial MMS_num_stages
     MMS_factor MMS_domain_length MMS_num_steps MMS_time_step MMS_step_threshold MMS_T_left =
     (if flag_MMS then
        (case mms_functions uf alpha wavenumber mmsfunc of
           Inl thrown \<Rightarrow> Inl thrown
         | Inr (func_exact, func_rhs) \<Rightarrow>
             Inr (Some (TesterMms CalcDiff MMS_mesh_initial MMS_num_stages MMS_factor
                          MMS_domain_length MMS_num_steps MMS_time_step MMS_step_threshold
                          uf alpha MMS_T_left func_rhs func_exact)))
      else Inr None)"

text \<open>
  In the words of the specification: the right-hand side is derived analytically from
  the exact solution. For the steady equation of the solver, \<open>d/dx (u T - alpha dT/dx)\<close>
  equal to the source, this is \<open>u T' - alpha T''\<close> at every position.
\<close>

definition derived_rhs :: "Scal \<Rightarrow> Scal \<Rightarrow> FuncTX \<Rightarrow> FuncTX \<Rightarrow> bool" where
  "derived_rhs uf alpha func_exact func_rhs =
     (\<exists>T' T''. \<forall>t x.
        (func_exact t has_real_derivative T' t x) (at x) \<and>
        (T' t has_real_derivative T'' t x) (at x) \<and>
        func_rhs t x = uf * T' t x - alpha * T'' t x)"

section \<open>Example configurations\<close>

text \<open>
  A solver on two unit cells with given physical parameters, sources and current
  fluid field; the other layers are at the cold temperature 1.
\<close>

definition example_solver ::
  "Scal \<Rightarrow> Scal \<Rightarrow> Scal \<Rightarrow> FieldCell option \<Rightarrow> FieldCell option \<Rightarrow> FieldCell \<Rightarrow> HeatStorage" where
  "example_solver uf alpha_f alpha_s rhs_f rhs_s Tf =
     (HeatStorage_ctor (InitUniformMesh 0 2 2) (1 / 2) uf alpha_f alpha_s 3 1 0 0 rhs_f rhs_s)
       \<lparr>fc_temperature_fluid := \<lparr>time_curr = Tf, time_prev = [1, 1]\<rparr>\<rparr>"

section \<open>Binary64 arithmetic: lemmas\<close>

lemma p2_powr: "p2 e = 2 powr (of_int e)"
proof (cases "0 \<le> e")
  case True
  then show ?thesis by (simp add: p2_def powr_int)
next
  case False
  then show ?thesis by (simp add: p2_def powr_int field_simps)
qed

lemma p2_pos [simp]: "0 < p2 e"
  by (simp add: p2_powr)

lemma p2_add: "p2 (a + b) = p2 a * p2 b"
  by (simp add: p2_powr powr_add)

lemma p2_diff: "p2 (a - b) = p2 a / p2 b"
  by (simp add: p2_powr powr_diff)

lemma p2_nat: "p2 (int n) = 2 ^ n"
  by (simp add: p2_def)

lemma p2_mono: "a \<le> b \<Longrightarrow> p2 a \<le> p2 b"
  by (simp add: p2_powr)

lemma p2_strict_mono: "a < b \<Longrightarrow> p2 a < p2 b"
  by (simp add: p2_powr)

lemma p2_less_iff: "p2 a < p2 b \<longleftrightarrow> a < b"
  by (simp add: p2_powr)


lemma floor_log2_bounds:
  assumes "0 < x"
  shows "p2 \<lfloor>log 2 x\<rfloor> \<le> x" and "x < p2 (\<lfloor>log 2 x\<rfloor> + 1)"
  using floor_log_eq_powr_iff [of x 2 "\<lfloor>log 2 x\<rfloor>"] assms
  by (simp_all add: p2_powr)

lemma round_even_int [simp]: "round_even (of_int k) = k"
  by (simp add: round_even_def)

lemma round_even_ge: "of_int k \<le> y \<Longrightarrow> k \<le> round_even y"
proof -
  assume "of_int k \<le> y"
  then have "k \<le> \<lfloor>y\<rfloor>" by (simp add: le_floor_iff)
  then show ?thesis by (auto simp: round_even_def Let_def)
qed

lemma round_even_le: "y \<le> of_int k \<Longrightarrow> round_even y \<le> k"
proof -
  assume le: "y \<le> of_int k"
  then have f: "\<lfloor>y\<rfloor> \<le> k" by (simp add: floor_le_iff)
  show ?thesis
  proof (cases "y - of_int \<lfloor>y\<rfloor> < 1 / 2")
    case True
    then show ?thesis using f by (simp add: round_even_def Let_def)
  next
    case False
    then have "of_int \<lfloor>y\<rfloor> < y" by linarith
    then have "of_int \<lfloor>y\<rfloor> < (of_int k :: real)" using le by linarith
    then have "\<lfloor>y\<rfloor> < k" by simp
    then show ?thesis by (auto simp: round_even_def Let_def)
  qed
qed


lemma rnd_on_grid:
  assumes "x = of_int k * p2 (ulp_exp x)" and "\<bar>x\<bar> < 2 ^ 1024"
  shows "rnd x = Fin x"
proof (cases "x = 0")
  case True
  then show ?thesis by (simp add: rnd_def)
next
  case False
  have "x / p2 (ulp_exp x) = of_int k"
    using assms(1) p2_pos [of "ulp_exp x"] by (metis nonzero_eq_divide_eq less_irrefl)
  then have r: "of_int (round_even (x / p2 (ulp_exp x))) * p2 (ulp_exp x) = x"
    using assms(1) by simp
  show ?thesis
    using False assms(2) unfolding rnd_def Let_def r by (simp add: abs_less_iff)
qed

lemma ulp_exp_le:
  assumes "x \<noteq> 0" and "\<bar>x\<bar> < p2 (e + 53)" and "- 1074 \<le> e"
  shows "ulp_exp x \<le> e"
proof -
  have pos: "0 < \<bar>x\<bar>" using assms(1) by simp
  have "p2 \<lfloor>log 2 \<bar>x\<bar>\<rfloor> < p2 (e + 53)"
    using floor_log2_bounds(1) [OF pos] assms(2) by linarith
  then have "\<lfloor>log 2 \<bar>x\<bar>\<rfloor> < e + 53"
    by (simp add: p2_powr)
  then show ?thesis using assms(3) by (simp add: ulp_exp_def)
qed

lemma rnd_double:
  assumes "is_double x"
  shows "rnd x = Fin x"
proof (cases "x = 0")
  case True
  then show ?thesis by (simp add: rnd_def)
next
  case False
  obtain m e where x: "x = of_int m * p2 e" and m: "\<bar>m\<bar> < 2 ^ 53"
    and e: "- 1074 \<le> e" "e \<le> 971"
    using assms unfolding is_double_def by blast
  have am: "\<bar>of_int m :: real\<bar> < 2 ^ 53"
    using m by (metis of_int_abs of_int_less_numeral_power_cancel_iff)
  have ax: "\<bar>x\<bar> = \<bar>of_int m\<bar> * p2 e"
    by (simp add: x abs_mult abs_of_pos)
  have "\<bar>x\<bar> < 2 ^ 53 * p2 e"
    unfolding ax using am by simp
  also have "\<dots> = p2 (e + 53)"
  proof -
    have p53: "p2 53 = 2 ^ 53" by (simp add: p2_def)
    have "p2 (e + 53) = p2 e * p2 53" by (rule p2_add)
    also have "\<dots> = 2 ^ 53 * p2 e" unfolding p53 by (rule mult.commute)
    finally show ?thesis by (rule sym)
  qed
  finally have lt: "\<bar>x\<bar> < p2 (e + 53)" .
  have ue: "ulp_exp x \<le> e" using False lt e(1) by (rule ulp_exp_le)
  define j where "j = nat (e - ulp_exp x)"
  have pj: "p2 e = 2 ^ j * p2 (ulp_exp x)"
  proof -
    have "p2 e = p2 (int j + ulp_exp x)" using ue by (simp add: j_def)
    then show ?thesis by (simp add: p2_add p2_nat)
  qed
  have "of_int m * p2 e = of_int (m * 2 ^ j) * p2 (ulp_exp x)"
    by (simp only: pj of_int_mult of_int_power of_int_numeral mult.assoc)
  with x have grid: "x = of_int (m * 2 ^ j) * p2 (ulp_exp x)"
    by (rule trans)
  have "p2 (e + 53) \<le> p2 1024" using e(2) by (intro p2_mono) simp
  then have "\<bar>x\<bar> < 2 ^ 1024" using lt by (simp add: p2_def)
  with grid show ?thesis by (rule rnd_on_grid)
qed

lemma is_double_int:
  assumes "\<bar>k\<bar> < 2 ^ 53"
  shows "is_double (of_int k)"
  unfolding is_double_def
  by (rule exI [of _ k], rule exI [of _ 0]) (use assms in \<open>simp add: p2_def\<close>)




lemma is_double_grid:
  assumes "\<bar>k\<bar> \<le> 2 ^ 53" and "- 1074 \<le> e" and "\<bar>of_int k * p2 e\<bar> < 2 ^ 1024"
  shows "is_double (of_int k * p2 e)"
proof (cases "e \<le> 970")
  case True
  show ?thesis
  proof (cases "\<bar>k\<bar> < 2 ^ 53")
    case True
    then show ?thesis
      unfolding is_double_def using assms(2) \<open>e \<le> 970\<close> by (intro exI [of _ k] exI [of _ e]) simp
  next
    case False
    then have k: "k = 2 ^ 53 \<or> k = - (2 ^ 53)" using assms(1) by linarith
    have h: "of_int k * p2 e = of_int (k div 2) * p2 (e + 1)"
    proof -
      have "p2 1 = 2" by (simp add: p2_def)
      then have "p2 (e + 1) = p2 e * 2" by (simp only: p2_add)
      moreover have "(of_int k :: real) = of_int (k div 2) * 2" using k by auto
      ultimately show ?thesis by simp
    qed
    have "\<bar>k div 2\<bar> < 2 ^ 53" using k by auto
    then show ?thesis
      unfolding is_double_def h using assms(2) True
      by (intro exI [of _ "k div 2"] exI [of _ "e + 1"]) simp
  qed
next
  case False
  define j where "j = nat (e - 971)"
  have pe: "p2 e = 2 ^ j * p2 971"
  proof -
    have "p2 e = p2 (int j + 971)" using False by (simp add: j_def)
    then show ?thesis by (simp only: p2_add p2_nat)
  qed
  have h: "of_int k * p2 e = of_int (k * 2 ^ j) * p2 971"
    by (simp only: pe of_int_mult of_int_power of_int_numeral mult.assoc)
  have p971: "p2 971 = 2 ^ 971" by (simp add: p2_def)
  have "\<bar>of_int (k * 2 ^ j) :: real\<bar> * 2 ^ 971 < 2 ^ 53 * 2 ^ 971"
    using assms(3) unfolding h p971 by (simp add: abs_mult)
  then have "\<bar>of_int (k * 2 ^ j) :: real\<bar> < 2 ^ 53" by simp
  then have "\<bar>k * 2 ^ j\<bar> < 2 ^ 53"
    by (metis of_int_abs of_int_less_numeral_power_cancel_iff)
  then show ?thesis
    unfolding is_double_def h
    by (intro exI [of _ "k * 2 ^ j"] exI [of _ 971]) simp
qed

lemma ulp_exp_ge: "- 1074 \<le> ulp_exp x"
  by (simp add: ulp_exp_def)

lemma scaled_bound:
  assumes "x \<noteq> 0"
  shows "\<bar>x / p2 (ulp_exp x)\<bar> < 2 ^ 53"
proof -
  have pos: "0 < \<bar>x\<bar>" using assms by simp
  let ?E = "\<lfloor>log 2 \<bar>x\<bar>\<rfloor>"
  have "\<bar>x\<bar> < p2 (?E + 1)" using floor_log2_bounds(2) [OF pos] .
  also have "p2 (?E + 1) \<le> p2 (ulp_exp x + 53)"
    by (intro p2_mono) (simp add: ulp_exp_def)
  also have "\<dots> = p2 (ulp_exp x) * 2 ^ 53"
  proof -
    have "p2 53 = 2 ^ 53" by (simp add: p2_def)
    then show ?thesis by (simp only: p2_add)
  qed
  finally have "\<bar>x\<bar> / p2 (ulp_exp x) < 2 ^ 53"
    by (simp add: pos_divide_less_eq mult.commute)
  then show ?thesis by (simp add: abs_of_pos)
qed

lemma round_even_bound:
  assumes "\<bar>y\<bar> < 2 ^ 53"
  shows "\<bar>round_even y\<bar> \<le> 2 ^ 53"
proof -
  have up: "y \<le> of_int (2 ^ 53)" and lo: "of_int (- (2 ^ 53)) \<le> y"
    using assms by simp_all
  have "round_even y \<le> 2 ^ 53" using up by (rule round_even_le)
  moreover have "- (2 ^ 53) \<le> round_even y" using lo by (rule round_even_ge)
  ultimately show ?thesis by simp
qed

lemma rnd_is_double:
  assumes "rnd x = Fin r"
  shows "is_double r"
proof (cases "x = 0")
  case True
  then have "r = 0" using assms by (simp add: rnd_def)
  then show ?thesis using is_double_int [of 0] by simp
next
  case False
  let ?u = "p2 (ulp_exp x)"
  let ?k = "round_even (x / ?u)"
  have r: "r = of_int ?k * ?u" and lt: "\<bar>of_int ?k * ?u\<bar> < 2 ^ 1024"
    using assms False unfolding rnd_def Let_def
    by (auto split: if_splits simp: abs_less_iff)
  have "\<bar>?k\<bar> \<le> 2 ^ 53"
    using scaled_bound [OF False] by (rule round_even_bound)
  then show ?thesis
    unfolding r using ulp_exp_ge lt by (rule is_double_grid)
qed

lemma rnd_idem: "rnd x = Fin r \<Longrightarrow> rnd r = Fin r"
  by (simp add: rnd_is_double rnd_double)



lemma rnd_overflow:
  assumes "2 ^ 1024 \<le> x"
  shows "rnd x = PInf"
proof -
  have pos: "0 < \<bar>x\<bar>" and x0: "x \<noteq> 0" and ax: "\<bar>x\<bar> = x" using assms by auto
  let ?E = "\<lfloor>log 2 \<bar>x\<bar>\<rfloor>"
  have p1024: "p2 1024 = 2 ^ 1024" by (simp add: p2_def)
  have "p2 1024 \<le> \<bar>x\<bar>" using assms unfolding p1024 by simp
  also have "\<bar>x\<bar> < p2 (?E + 1)" using floor_log2_bounds(2) [OF pos] .
  finally have "1024 < ?E + 1" by (simp only: p2_less_iff)
  then have E: "1024 \<le> ?E" by simp
  then have u: "ulp_exp x = ?E - 52" by (simp add: ulp_exp_def)
  have "p2 ?E \<le> x" using floor_log2_bounds(1) [OF pos] ax by simp
  moreover have "p2 ?E = 2 ^ 52 * p2 (?E - 52)"
  proof -
    have "p2 52 = 2 ^ 52" by (simp add: p2_def)
    moreover have "p2 ?E = p2 (52 + (?E - 52))" by simp
    ultimately show ?thesis by (simp only: p2_add)
  qed
  ultimately have "of_int (2 ^ 52) \<le> x / p2 (?E - 52)"
    by (simp add: pos_le_divide_eq)
  then have "2 ^ 52 \<le> round_even (x / p2 (?E - 52))" by (rule round_even_ge)
  then have "(2 ^ 52 :: real) \<le> of_int (round_even (x / p2 (?E - 52)))"
    by (metis of_int_le_iff of_int_numeral of_int_power)
  then have "2 ^ 52 * p2 (?E - 52) \<le> of_int (round_even (x / p2 (?E - 52))) * p2 (?E - 52)"
    by (simp add: mult_right_mono)
  moreover have "p2 1024 \<le> p2 ?E" using E by (rule p2_mono)
  ultimately have "2 ^ 1024 \<le> of_int (round_even (x / p2 (?E - 52))) * p2 (?E - 52)"
    using \<open>p2 ?E = 2 ^ 52 * p2 (?E - 52)\<close> p1024 by linarith
  then show ?thesis using x0 by (simp add: rnd_def u Let_def)
qed




section \<open>Scheduler: lemmas\<close>














section \<open>Transport solver: the loops of CalcStep\<close>

lemma fold_upd_nth:
  "n \<le> length xs \<Longrightarrow>
   fold (\<lambda>i ys. ys[i := g i (ys ! i)]) [0..<n] xs =
     map (\<lambda>i. if i < n then g i (xs ! i) else xs ! i) [0..<length xs]"
proof (induction n)
  case 0
  show ?case by (simp add: map_nth)
next
  case (Suc n)
  then have IH: "fold (\<lambda>i ys. ys[i := g i (ys ! i)]) [0..<n] xs =
     map (\<lambda>i. if i < n then g i (xs ! i) else xs ! i) [0..<length xs]" by simp
  show ?case
    using Suc.prems
    by (auto simp: IH intro!: nth_equalityI simp: nth_list_update less_Suc_eq)
qed

lemma fold_upd_all:
  "fold (\<lambda>i ys. ys[i := g i (ys ! i)]) [0..<length xs] xs = map (\<lambda>i. g i (xs ! i)) [0..<length xs]"
  by (simp add: fold_upd_nth)

lemma fold_pair_upd:
  "fold (\<lambda>i p. ((fst p)[i := a i (fst p ! i)], (snd p)[i := b i (snd p ! i)])) is (xs, ys) =
   (fold (\<lambda>i zs. zs[i := a i (zs ! i)]) is xs, fold (\<lambda>i zs. zs[i := b i (zs ! i)]) is ys)"
  by (induction "is" arbitrary: xs ys) simp_all

lemma CalcStep_face_upd:
  "CalcStep_face (mesh s) (GetVolume (mesh s) 0) (fluid_velocity s) (conductivity_fluid s)
      (conductivity_solid s) (temperature_hot s) Tf Ts =
   (\<lambda>i p. ((fst p)[i := (if i \<le> GetNumCells (mesh s) then fst p ! i + spec_flux_fluid s Tf i
                           else fst p ! i + fluid_velocity s * Tf ! (i - 1))],
            (snd p)[i := (if i \<le> GetNumCells (mesh s) then snd p ! i + spec_flux_solid s Ts i
                           else snd p ! i + 0)]))"
  by (intro ext)
     (simp add: CalcStep_face_def GetNeighbourCell_face_def spec_flux_fluid_def
        spec_flux_solid_def Let_def add_diff_eq)

lemma face_fields:
  "fold (CalcStep_face (mesh s) (GetVolume (mesh s) 0) (fluid_velocity s) (conductivity_fluid s)
      (conductivity_solid s) (temperature_hot s) Tf Ts) (Faces (mesh s))
      (replicate (length (Faces (mesh s))) 0, replicate (length (Faces (mesh s))) 0) =
   (map (spec_flux_fluid s Tf) [0..<Suc (GetNumCells (mesh s))],
    map (spec_flux_solid s Ts) [0..<Suc (GetNumCells (mesh s))])"
proof -
  let ?n = "Suc (GetNumCells (mesh s))"
  have len: "length (replicate ?n (0::real)) = ?n" by simp
  have a: "fold (\<lambda>i ys. ys[i := (if i \<le> GetNumCells (mesh s) then ys ! i + spec_flux_fluid s Tf i
                           else ys ! i + fluid_velocity s * Tf ! (i - 1))]) [0..<?n] (replicate ?n 0)
       = map (spec_flux_fluid s Tf) [0..<?n]"
    using fold_upd_all [of "\<lambda>i v. if i \<le> GetNumCells (mesh s) then v + spec_flux_fluid s Tf i
                           else v + fluid_velocity s * Tf ! (i - 1)" "replicate ?n 0"]
    unfolding len by (simp del: upt_Suc replicate_Suc)
  have b: "fold (\<lambda>i ys. ys[i := (if i \<le> GetNumCells (mesh s) then ys ! i + spec_flux_solid s Ts i
                           else ys ! i + 0)]) [0..<?n] (replicate ?n 0)
       = map (spec_flux_solid s Ts) [0..<?n]"
    using fold_upd_all [of "\<lambda>i v. if i \<le> GetNumCells (mesh s) then v + spec_flux_solid s Ts i
                           else v + 0" "replicate ?n 0"]
    unfolding len by (simp del: upt_Suc replicate_Suc)
  show ?thesis
    unfolding CalcStep_face_upd Faces_def length_upt diff_zero
    by (simp only: a b fold_pair_upd [where a = "\<lambda>i v. if i \<le> GetNumCells (mesh s) then v + spec_flux_fluid s Tf i
                           else v + fluid_velocity s * Tf ! (i - 1)"
        and b = "\<lambda>i v. if i \<le> GetNumCells (mesh s) then v + spec_flux_solid s Ts i
                           else v + 0"])
qed


lemma cell_fields:
  assumes "length Tn = GetNumCells m" and "length Sn = GetNumCells m"
  shows "fold (CalcStep_cell m h dt Tf Ts ffF ffS) (Cells m) (Tn, Sn) =
     (map (\<lambda>i. Tf ! i - dt / h * (ffF ! Suc i - ffF ! i)) [0..<GetNumCells m],
      map (\<lambda>i. Ts ! i - dt / h * (ffS ! Suc i - ffS ! i)) [0..<GetNumCells m])"
proof -
  have upd: "CalcStep_cell m h dt Tf Ts ffF ffS =
    (\<lambda>i p. ((fst p)[i := (\<lambda>i v. Tf ! i - dt / h * (ffF ! Suc i - ffF ! i)) i (fst p ! i)],
             (snd p)[i := (\<lambda>i v. Ts ! i - dt / h * (ffS ! Suc i - ffS ! i)) i (snd p ! i)]))"
    by (intro ext) (simp add: CalcStep_cell_def GetNeighbourFace_def)
  have a: "fold (\<lambda>i zs. zs[i := (\<lambda>i v. Tf ! i - dt / h * (ffF ! Suc i - ffF ! i)) i (zs ! i)])
             [0..<GetNumCells m] Tn
           = map (\<lambda>i. Tf ! i - dt / h * (ffF ! Suc i - ffF ! i)) [0..<GetNumCells m]"
    using fold_upd_all [of "\<lambda>i v. Tf ! i - dt / h * (ffF ! Suc i - ffF ! i)" Tn]
    by (simp add: assms)
  have b: "fold (\<lambda>i zs. zs[i := (\<lambda>i v. Ts ! i - dt / h * (ffS ! Suc i - ffS ! i)) i (zs ! i)])
             [0..<GetNumCells m] Sn
           = map (\<lambda>i. Ts ! i - dt / h * (ffS ! Suc i - ffS ! i)) [0..<GetNumCells m]"
    using fold_upd_all [of "\<lambda>i v. Ts ! i - dt / h * (ffS ! Suc i - ffS ! i)" Sn]
    by (simp add: assms)
  show ?thesis
    unfolding upd Cells_def
    by (simp only: a b fold_pair_upd
          [where a = "\<lambda>i v. Tf ! i - dt / h * (ffF ! Suc i - ffF ! i)"
             and b = "\<lambda>i v. Ts ! i - dt / h * (ffS ! Suc i - ffS ! i)"])
qed

lemma source_field:
  assumes "length T = GetNumCells m"
  shows "CalcStep_source m dt p T = map (\<lambda>i. spec_source dt p i (T ! i)) [0..<GetNumCells m]"
proof (cases p)
  case None
  then show ?thesis
    using assms by (simp add: CalcStep_source_def spec_source_def list_eq_iff_nth_eq)
next
  case (Some rhs)
  then show ?thesis
    using assms fold_upd_all [of "\<lambda>i v. v + dt * rhs ! i" T]
    by (simp add: CalcStep_source_def spec_source_def Cells_def)
qed

lemma CalcStep_eq_spec_step:
  assumes "solver_ok s"
  shows "CalcStep s = spec_step s"
proof -
  let ?n = "GetNumCells (mesh s)"
  let ?Tf = "time_curr (fc_temperature_fluid s)"
  let ?Ts = "time_curr (fc_temperature_solid s)"
  let ?h = "GetVolume (mesh s) 0"
  let ?A = "\<lambda>i. ?Tf ! i - time_step s / ?h *
               (map (spec_flux_fluid s ?Tf) [0..<Suc ?n] ! Suc i -
                map (spec_flux_fluid s ?Tf) [0..<Suc ?n] ! i)"
  let ?B = "\<lambda>i. ?Ts ! i - time_step s / ?h *
               (map (spec_flux_solid s ?Ts) [0..<Suc ?n] ! Suc i -
                map (spec_flux_solid s ?Ts) [0..<Suc ?n] ! i)"
  have lf: "length (time_prev (fc_temperature_fluid s)) = ?n"
    and ls: "length (time_prev (fc_temperature_solid s)) = ?n"
    using assms by (simp_all add: solver_ok_def)
  have Tf_new: "CalcStep_source (mesh s) (time_step s) (p_fc_rhs_fluid s) (map ?A [0..<?n])
                  = map (spec_new_fluid s) [0..<?n]"
  proof -
    have len: "length (map ?A [0..<?n]) = ?n" by simp
    show ?thesis
      unfolding source_field [OF len]
      by (rule nth_equalityI) (simp_all add: spec_new_fluid_def Let_def del: upt_Suc)
  qed
  have Ts_new: "CalcStep_source (mesh s) (time_step s) (p_fc_rhs_solid s) (map ?B [0..<?n])
                  = map (spec_new_solid s) [0..<?n]"
  proof -
    have len: "length (map ?B [0..<?n]) = ?n" by simp
    show ?thesis
      unfolding source_field [OF len]
      by (rule nth_equalityI) (simp_all add: spec_new_solid_def Let_def del: upt_Suc)
  qed
  show ?thesis
    unfolding CalcStep_def Let_def swap_layers_def
    by (simp only: LayersData.select_convs face_fields fst_conv snd_conv
          cell_fields [OF lf ls] Tf_new Ts_new spec_step_def LayersData.update_convs)
qed

section \<open>Transport solver: consequences of the reference update\<close>














section \<open>Transport solver in binary64 arithmetic: lemmas\<close>

lemma CalcStep_face_fp_upd:
  "CalcStep_face_fp (mesh_fp s) (GetVolume_fp (mesh_fp s) 0) (fluid_velocity_fp s)
      (conductivity_fluid_fp s) (conductivity_solid_fp s) (temperature_hot_fp s) Tf Ts =
   (\<lambda>i p. ((fst p)[i := flux_fluid_fp s Tf i (fst p ! i)],
            (snd p)[i := flux_solid_fp s Ts i (snd p ! i)]))"
  by (intro ext)
     (simp add: CalcStep_face_fp_def GetNeighbourCell_face_fp_def flux_fluid_fp_def
        flux_solid_fp_def Let_def)

lemma face_fields_fp:
  "fold (CalcStep_face_fp (mesh_fp s) (GetVolume_fp (mesh_fp s) 0) (fluid_velocity_fp s)
      (conductivity_fluid_fp s) (conductivity_solid_fp s) (temperature_hot_fp s) Tf Ts)
      (Faces_fp (mesh_fp s))
      (replicate (length (Faces_fp (mesh_fp s))) (Fin 0),
       replicate (length (Faces_fp (mesh_fp s))) (Fin 0)) =
   (map (\<lambda>f. flux_fluid_fp s Tf f (Fin 0)) [0..<Suc (GetNumCells_fp (mesh_fp s))],
    map (\<lambda>f. flux_solid_fp s Ts f (Fin 0)) [0..<Suc (GetNumCells_fp (mesh_fp s))])"
proof -
  let ?n = "Suc (GetNumCells_fp (mesh_fp s))"
  have len: "length (replicate ?n (Fin 0)) = ?n" by simp
  have a: "fold (\<lambda>i ys. ys[i := flux_fluid_fp s Tf i (ys ! i)]) [0..<?n] (replicate ?n (Fin 0))
       = map (\<lambda>f. flux_fluid_fp s Tf f (Fin 0)) [0..<?n]"
    using fold_upd_all [of "flux_fluid_fp s Tf" "replicate ?n (Fin 0)"]
    unfolding len by (simp del: upt_Suc replicate_Suc)
  have b: "fold (\<lambda>i ys. ys[i := flux_solid_fp s Ts i (ys ! i)]) [0..<?n] (replicate ?n (Fin 0))
       = map (\<lambda>f. flux_solid_fp s Ts f (Fin 0)) [0..<?n]"
    using fold_upd_all [of "flux_solid_fp s Ts" "replicate ?n (Fin 0)"]
    unfolding len by (simp del: upt_Suc replicate_Suc)
  show ?thesis
    unfolding CalcStep_face_fp_upd Faces_fp_def length_upt diff_zero
    by (simp only: a b fold_pair_upd [where a = "flux_fluid_fp s Tf"
        and b = "flux_solid_fp s Ts"])
qed

lemma cell_fields_fp:
  assumes "length Tn = GetNumCells_fp m" and "length Sn = GetNumCells_fp m"
  shows "fold (CalcStep_cell_fp m h dt Tf Ts ffF ffS) (Cells_fp m) (Tn, Sn) =
     (map (\<lambda>i. dsub (Tf ! i) (dmul (ddiv dt h) (dsub (ffF ! Suc i) (ffF ! i))))
        [0..<GetNumCells_fp m],
      map (\<lambda>i. dsub (Ts ! i) (dmul (ddiv dt h) (dsub (ffS ! Suc i) (ffS ! i))))
        [0..<GetNumCells_fp m])"
proof -
  let ?A = "\<lambda>i (v::double). dsub (Tf ! i) (dmul (ddiv dt h) (dsub (ffF ! Suc i) (ffF ! i)))"
  let ?B = "\<lambda>i (v::double). dsub (Ts ! i) (dmul (ddiv dt h) (dsub (ffS ! Suc i) (ffS ! i)))"
  have upd: "CalcStep_cell_fp m h dt Tf Ts ffF ffS =
    (\<lambda>i p. ((fst p)[i := ?A i (fst p ! i)], (snd p)[i := ?B i (snd p ! i)]))"
    by (intro ext) (simp add: CalcStep_cell_fp_def GetNeighbourFace_fp_def)
  have a: "fold (\<lambda>i zs. zs[i := ?A i (zs ! i)]) [0..<GetNumCells_fp m] Tn
           = map (\<lambda>i. dsub (Tf ! i) (dmul (ddiv dt h) (dsub (ffF ! Suc i) (ffF ! i))))
               [0..<GetNumCells_fp m]"
    using fold_upd_all [of ?A Tn] by (simp add: assms)
  have b: "fold (\<lambda>i zs. zs[i := ?B i (zs ! i)]) [0..<GetNumCells_fp m] Sn
           = map (\<lambda>i. dsub (Ts ! i) (dmul (ddiv dt h) (dsub (ffS ! Suc i) (ffS ! i))))
               [0..<GetNumCells_fp m]"
    using fold_upd_all [of ?B Sn] by (simp add: assms)
  show ?thesis
    unfolding upd Cells_fp_def
    by (simp only: a b fold_pair_upd [where a = ?A and b = ?B])
qed

lemma source_field_fp:
  assumes "length T = GetNumCells_fp m"
  shows "CalcStep_source_fp m dt p T = map (\<lambda>i. source_fp dt p i (T ! i)) [0..<GetNumCells_fp m]"
proof (cases p)
  case None
  then show ?thesis
    using assms by (simp add: CalcStep_source_fp_def source_fp_def list_eq_iff_nth_eq)
next
  case (Some rhs)
  then show ?thesis
    using assms fold_upd_all [of "\<lambda>i v. dadd v (dmul dt (rhs ! i))" T]
    by (simp add: CalcStep_source_fp_def source_fp_def Cells_fp_def)
qed

lemma CalcStep_fp_eq_step_fp:
  assumes "solver_ok_fp s"
  shows "CalcStep_fp s = step_fp s"
proof -
  let ?n = "GetNumCells_fp (mesh_fp s)"
  let ?Tf = "time_curr (fc_temperature_fluid_fp s)"
  let ?Ts = "time_curr (fc_temperature_solid_fp s)"
  let ?h = "GetVolume_fp (mesh_fp s) 0"
  let ?A = "\<lambda>i. dsub (?Tf ! i) (dmul (ddiv (time_step_fp s) ?h)
               (dsub (map (\<lambda>f. flux_fluid_fp s ?Tf f (Fin 0)) [0..<Suc ?n] ! Suc i)
                     (map (\<lambda>f. flux_fluid_fp s ?Tf f (Fin 0)) [0..<Suc ?n] ! i)))"
  let ?B = "\<lambda>i. dsub (?Ts ! i) (dmul (ddiv (time_step_fp s) ?h)
               (dsub (map (\<lambda>f. flux_solid_fp s ?Ts f (Fin 0)) [0..<Suc ?n] ! Suc i)
                     (map (\<lambda>f. flux_solid_fp s ?Ts f (Fin 0)) [0..<Suc ?n] ! i)))"
  have lf: "length (time_prev (fc_temperature_fluid_fp s)) = ?n"
    and ls: "length (time_prev (fc_temperature_solid_fp s)) = ?n"
    using assms by (simp_all add: solver_ok_fp_def)
  have Tf_new: "CalcStep_source_fp (mesh_fp s) (time_step_fp s) (p_fc_rhs_fluid_fp s)
                  (map ?A [0..<?n]) = map (new_fluid_fp s) [0..<?n]"
  proof -
    have len: "length (map ?A [0..<?n]) = ?n" by simp
    show ?thesis
      unfolding source_field_fp [OF len]
      by (rule nth_equalityI) (simp_all add: new_fluid_fp_def Let_def del: upt_Suc)
  qed
  have Ts_new: "CalcStep_source_fp (mesh_fp s) (time_step_fp s) (p_fc_rhs_solid_fp s)
                  (map ?B [0..<?n]) = map (new_solid_fp s) [0..<?n]"
  proof -
    have len: "length (map ?B [0..<?n]) = ?n" by simp
    show ?thesis
      unfolding source_field_fp [OF len]
      by (rule nth_equalityI) (simp_all add: new_solid_fp_def Let_def del: upt_Suc)
  qed
  show ?thesis
    unfolding CalcStep_fp_def Let_def swap_layers_def
    by (simp only: LayersData.select_convs face_fields_fp fst_conv snd_conv
          cell_fields_fp [OF lf ls] Tf_new Ts_new step_fp_def LayersData.update_convs)
qed


lemma rnd_zero [simp]: "rnd 0 = Fin 0"
  by (simp add: rnd_def)

lemma finite_doubleE:
  assumes "finite_double d"
  obtains v where "d = Fin v" and "is_double v"
  using assms by (cases d) simp_all

lemma dmul_zero_left: "finite_double d \<Longrightarrow> dmul (Fin 0) d = Fin 0"
  by (erule finite_doubleE) simp

lemma dmul_zero_right: "finite_double d \<Longrightarrow> dmul d (Fin 0) = Fin 0"
  by (erule finite_doubleE) simp

lemma dadd_zero_zero: "dadd (Fin 0) (Fin 0) = Fin 0"
  by simp

lemma dsub_zero_zero: "dsub (Fin 0) (Fin 0) = Fin 0"
  by (simp add: dsub_def)

lemma dneg_zero: "dneg (Fin 0) = Fin 0"
  by simp

lemma dadd_zero_right: "finite_double d \<Longrightarrow> dadd d (Fin 0) = d"
  by (erule finite_doubleE) (simp add: rnd_double)

lemma dsub_zero_right: "finite_double d \<Longrightarrow> dsub d (Fin 0) = d"
  by (erule finite_doubleE) (simp add: dsub_def rnd_double)

lemma ddiv_zero_left:
  assumes "finite_double (ddiv dt h)"
  shows "ddiv (Fin 0) h = Fin 0"
proof (cases h)
  case (Fin y)
  show ?thesis
  proof (cases "y = 0")
    case True
    then have "\<not> finite_double (ddiv dt h)"
      unfolding Fin by (cases dt) simp_all
    then show ?thesis using assms by simp
  next
    case False
    then show ?thesis unfolding Fin by simp
  qed
next
  case PInf
  then show ?thesis by simp
next
  case NInf
  then show ?thesis by simp
next
  case NaN
  then have "\<not> finite_double (ddiv dt h)" by (cases dt) simp_all
  then show ?thesis using assms by simp
qed

lemma ddiv_finite_dividend:
  assumes "finite_double (ddiv dt h)"
  shows "\<exists>x. dt = Fin x"
proof (cases dt)
  case (Fin x)
  then show ?thesis by simp
next
  case PInf
  then have "\<not> finite_double (ddiv dt h)" by (cases h) simp_all
  then show ?thesis using assms by simp
next
  case NInf
  then have "\<not> finite_double (ddiv dt h)" by (cases h) simp_all
  then show ?thesis using assms by simp
next
  case NaN
  then have "\<not> finite_double (ddiv dt h)" by simp
  then show ?thesis using assms by simp
qed

lemma source_fp_zero:
  assumes "zero_source_fp n p" and "i < n" and "finite_double v" and "dt = Fin x"
  shows "source_fp dt p i v = v"
proof (cases p)
  case None
  then show ?thesis by (simp add: source_fp_def)
next
  case (Some fc)
  then have fc: "fc = replicate n (Fin 0)" using assms(1) by (simp add: zero_source_fp_def)
  have "dmul dt (Fin 0) = Fin 0" unfolding assms(4) by simp
  then show ?thesis
    unfolding source_fp_def Some fc using assms(2,3) by (simp add: dadd_zero_right)
qed

lemma at_rest_flux_fluid:
  assumes "at_rest_fp s" and "f \<le> GetNumCells_fp (mesh_fp s)"
  shows "flux_fluid_fp s (time_curr (fc_temperature_fluid_fp s)) f (Fin 0) = Fin 0"
proof -
  let ?T = "time_curr (fc_temperature_fluid_fp s)"
  let ?n = "GetNumCells_fp (mesh_fp s)"
  have len: "length ?T = ?n" using assms(1) by (simp add: at_rest_fp_def solver_ok_fp_def)
  have uf: "fluid_velocity_fp s = Fin 0" and af: "conductivity_fluid_fp s = Fin 0"
    and hot: "finite_double (temperature_hot_fp s)"
    and q: "finite_double (ddiv (time_step_fp s) (GetVolume_fp (mesh_fp s) 0))"
    and no: "no_overflow ?T"
    using assms(1) by (simp_all add: at_rest_fp_def)
  have cell: "\<And>i. i < ?n \<Longrightarrow> finite_double (?T ! i)"
    using no len by (simp add: no_overflow_def)
  have diff: "\<And>i. Suc i < ?n \<Longrightarrow> finite_double (dsub (?T ! Suc i) (?T ! i))"
    using no len by (simp add: no_overflow_def)
  show ?thesis
  proof (cases "f = 0")
    case True
    then show ?thesis
      by (simp add: flux_fluid_fp_def uf dmul_zero_left [OF hot] dadd_zero_zero)
  next
    case False
    then obtain i where f: "f = Suc i" by (cases f) simp_all
    have i: "i < ?n" using assms(2) f by simp
    have adv: "dmul (Fin 0) (?T ! i) = Fin 0" by (rule dmul_zero_left [OF cell [OF i]])
    show ?thesis
    proof (cases "f < ?n")
      case True
      then have "Suc i < ?n" using f by simp
      then have "dmul (Fin 0) (dsub (?T ! Suc i) (?T ! i)) = Fin 0"
        by (intro dmul_zero_left diff)
      then show ?thesis
        using True False
        by (simp add: flux_fluid_fp_def uf af f adv dadd_zero_zero ddiv_zero_left [OF q])
    next
      case nlt: False
      then show ?thesis
        using False by (simp add: flux_fluid_fp_def uf f adv dadd_zero_zero)
    qed
  qed
qed

lemma at_rest_flux_solid:
  assumes "at_rest_fp s" and "f \<le> GetNumCells_fp (mesh_fp s)"
  shows "flux_solid_fp s (time_curr (fc_temperature_solid_fp s)) f (Fin 0) = Fin 0"
proof -
  let ?T = "time_curr (fc_temperature_solid_fp s)"
  let ?n = "GetNumCells_fp (mesh_fp s)"
  have len: "length ?T = ?n" using assms(1) by (simp add: at_rest_fp_def solver_ok_fp_def)
  have af: "conductivity_solid_fp s = Fin 0"
    and q: "finite_double (ddiv (time_step_fp s) (GetVolume_fp (mesh_fp s) 0))"
    and no: "no_overflow ?T"
    using assms(1) by (simp_all add: at_rest_fp_def)
  have diff: "\<And>i. Suc i < ?n \<Longrightarrow> finite_double (dsub (?T ! Suc i) (?T ! i))"
    using no len by (simp add: no_overflow_def)
  show ?thesis
  proof (cases "f = 0 \<or> \<not> f < ?n")
    case True
    then show ?thesis by (auto simp add: flux_solid_fp_def dadd_zero_zero)
  next
    case False
    then obtain i where f: "f = Suc i" by (cases f) simp_all
    have "Suc i < ?n" using False f by simp
    then have "dmul (Fin 0) (dsub (?T ! Suc i) (?T ! i)) = Fin 0"
      by (intro dmul_zero_left diff)
    then show ?thesis
      using False
      by (simp add: flux_solid_fp_def af f dadd_zero_zero ddiv_zero_left [OF q])
  qed
qed

lemma at_rest_new_fluid_fp:
  assumes "at_rest_fp s" and "i < GetNumCells_fp (mesh_fp s)"
  shows "new_fluid_fp s i = time_curr (fc_temperature_fluid_fp s) ! i"
proof -
  let ?T = "time_curr (fc_temperature_fluid_fp s)"
  let ?n = "GetNumCells_fp (mesh_fp s)"
  have len: "length ?T = ?n" using assms(1) by (simp add: at_rest_fp_def solver_ok_fp_def)
  have q: "finite_double (ddiv (time_step_fp s) (GetVolume_fp (mesh_fp s) 0))"
    and no: "no_overflow ?T"
    and z: "zero_source_fp ?n (p_fc_rhs_fluid_fp s)"
    using assms(1) by (simp_all add: at_rest_fp_def)
  have v: "finite_double (?T ! i)" using no len assms(2) by (simp add: no_overflow_def)
  obtain x where dt: "time_step_fp s = Fin x" using ddiv_finite_dividend [OF q] by blast
  have f1: "flux_fluid_fp s ?T (Suc i) (Fin 0) = Fin 0"
    using assms(2) by (intro at_rest_flux_fluid [OF assms(1)]) simp
  have f0: "flux_fluid_fp s ?T i (Fin 0) = Fin 0"
    using assms(2) by (intro at_rest_flux_fluid [OF assms(1)]) simp
  show ?thesis
    unfolding new_fluid_fp_def Let_def f1 f0 dsub_zero_zero dmul_zero_right [OF q]
      dsub_zero_right [OF v]
    by (rule source_fp_zero [OF z assms(2) v dt])
qed

lemma at_rest_new_solid_fp:
  assumes "at_rest_fp s" and "i < GetNumCells_fp (mesh_fp s)"
  shows "new_solid_fp s i = time_curr (fc_temperature_solid_fp s) ! i"
proof -
  let ?T = "time_curr (fc_temperature_solid_fp s)"
  let ?n = "GetNumCells_fp (mesh_fp s)"
  have len: "length ?T = ?n" using assms(1) by (simp add: at_rest_fp_def solver_ok_fp_def)
  have q: "finite_double (ddiv (time_step_fp s) (GetVolume_fp (mesh_fp s) 0))"
    and no: "no_overflow ?T"
    and z: "zero_source_fp ?n (p_fc_rhs_solid_fp s)"
    using assms(1) by (simp_all add: at_rest_fp_def)
  have v: "finite_double (?T ! i)" using no len assms(2) by (simp add: no_overflow_def)
  obtain x where dt: "time_step_fp s = Fin x" using ddiv_finite_dividend [OF q] by blast
  have f1: "flux_solid_fp s ?T (Suc i) (Fin 0) = Fin 0"
    using assms(2) by (intro at_rest_flux_solid [OF assms(1)]) simp
  have f0: "flux_solid_fp s ?T i (Fin 0) = Fin 0"
    using assms(2) by (intro at_rest_flux_solid [OF assms(1)]) simp
  show ?thesis
    unfolding new_solid_fp_def Let_def f1 f0 dsub_zero_zero dmul_zero_right [OF q]
      dsub_zero_right [OF v]
    by (rule source_fp_zero [OF z assms(2) v dt])
qed

lemma solver_ok_step_fp: "solver_ok_fp s \<Longrightarrow> solver_ok_fp (step_fp s)"
  by (simp add: solver_ok_fp_def step_fp_def)

lemma at_rest_step_fp:
  assumes "at_rest_fp s"
  shows "time_curr (fc_temperature_fluid_fp (CalcStep_fp s)) = time_curr (fc_temperature_fluid_fp s)"
    and "time_curr (fc_temperature_solid_fp (CalcStep_fp s)) = time_curr (fc_temperature_solid_fp s)"
    and "at_rest_fp (CalcStep_fp s)"
proof -
  have ok: "solver_ok_fp s" using assms by (simp add: at_rest_fp_def)
  have lf: "length (time_curr (fc_temperature_fluid_fp s)) = GetNumCells_fp (mesh_fp s)"
    and ls: "length (time_curr (fc_temperature_solid_fp s)) = GetNumCells_fp (mesh_fp s)"
    using ok by (simp_all add: solver_ok_fp_def)
  have a: "time_curr (fc_temperature_fluid_fp (step_fp s)) = time_curr (fc_temperature_fluid_fp s)"
    by (rule nth_equalityI) (simp_all add: step_fp_def lf at_rest_new_fluid_fp [OF assms])
  have b: "time_curr (fc_temperature_solid_fp (step_fp s)) = time_curr (fc_temperature_solid_fp s)"
    by (rule nth_equalityI) (simp_all add: step_fp_def ls at_rest_new_solid_fp [OF assms])
  show "time_curr (fc_temperature_fluid_fp (CalcStep_fp s)) = time_curr (fc_temperature_fluid_fp s)"
    unfolding CalcStep_fp_eq_step_fp [OF ok] by (rule a)
  show "time_curr (fc_temperature_solid_fp (CalcStep_fp s)) = time_curr (fc_temperature_solid_fp s)"
    unfolding CalcStep_fp_eq_step_fp [OF ok] by (rule b)
  have rest: "mesh_fp (step_fp s) = mesh_fp s" "time_step_fp (step_fp s) = time_step_fp s"
    "fluid_velocity_fp (step_fp s) = fluid_velocity_fp s"
    "conductivity_fluid_fp (step_fp s) = conductivity_fluid_fp s"
    "conductivity_solid_fp (step_fp s) = conductivity_solid_fp s"
    "temperature_hot_fp (step_fp s) = temperature_hot_fp s"
    "p_fc_rhs_fluid_fp (step_fp s) = p_fc_rhs_fluid_fp s"
    "p_fc_rhs_solid_fp (step_fp s) = p_fc_rhs_solid_fp s"
    by (simp_all add: step_fp_def)
  show "at_rest_fp (CalcStep_fp s)"
    unfolding CalcStep_fp_eq_step_fp [OF ok]
    using assms solver_ok_step_fp [OF ok]
    unfolding at_rest_fp_def rest a b by simp
qed

lemma at_rest_steps_fp:
  "at_rest_fp s \<Longrightarrow>
   at_rest_fp ((CalcStep_fp ^^ n) s) \<and>
   time_curr (fc_temperature_fluid_fp ((CalcStep_fp ^^ n) s))
     = time_curr (fc_temperature_fluid_fp s) \<and>
   time_curr (fc_temperature_solid_fp ((CalcStep_fp ^^ n) s))
     = time_curr (fc_temperature_solid_fp s)"
proof (induction n)
  case 0
  then show ?case by simp
next
  case (Suc n)
  then show ?case by (simp add: at_rest_step_fp)
qed


lemma is_doubleI:
  assumes "\<bar>m\<bar> < 2 ^ 53" and "- 1074 \<le> e" and "e \<le> 971" and "x = of_int m * p2 e"
  shows "is_double x"
  unfolding is_double_def using assms by blast

lemma rnd_int: "\<bar>k\<bar> < 2 ^ 53 \<Longrightarrow> rnd (of_int k) = Fin (of_int k)"
  by (simp add: rnd_double is_double_int)

lemma dadd_NaN_right [simp]: "dadd x NaN = NaN"
  by (cases x) simp_all

lemma dmul_NaN_right [simp]: "dmul x NaN = NaN"
  by (cases x) simp_all

lemma dsub_NaN_right [simp]: "dsub x NaN = NaN"
  by (simp add: dsub_def)

lemma dadd_rnd_zero: "dadd (rnd x) (Fin 0) = rnd x"
proof (cases "rnd x")
  case (Fin r)
  then have "rnd r = Fin r" by (rule rnd_idem)
  then show ?thesis unfolding Fin by simp
qed simp_all

lemma dadd_zero_rnd: "dadd (Fin 0) (rnd x) = rnd x"
proof (cases "rnd x")
  case (Fin r)
  then have "rnd r = Fin r" by (rule rnd_idem)
  then show ?thesis unfolding Fin by simp
qed simp_all

lemma dadd_zero_dmul: "dadd (Fin 0) (dmul x y) = dmul x y"
  by (cases x; cases y) (simp_all add: dadd_zero_rnd)

lemma dadd_dmul_zero: "dadd (dmul x y) (Fin 0) = dmul x y"
  by (cases x; cases y) (simp_all add: dadd_rnd_zero)

lemma ddiv_zero_by:
  assumes "h \<noteq> NaN" and "h \<noteq> Fin 0"
  shows "ddiv (Fin 0) h = Fin 0"
  using assms by (cases h) simp_all

lemma leftmost_new_fluid_fp:
  assumes "solver_ok_fp s" and "conductivity_fluid_fp s = Fin 0" and "p_fc_rhs_fluid_fp s = None"
    and "GetVolume_fp (mesh_fp s) 0 \<noteq> NaN" and "GetVolume_fp (mesh_fp s) 0 \<noteq> Fin 0"
    and "1 < GetNumCells_fp (mesh_fp s) \<longrightarrow>
         finite_double (dsub (time_curr (fc_temperature_fluid_fp s) ! 1)
                             (time_curr (fc_temperature_fluid_fp s) ! 0))"
  shows "time_curr (fc_temperature_fluid_fp (CalcStep_fp s)) ! 0 =
         dsub (time_curr (fc_temperature_fluid_fp s) ! 0)
           (dmul (ddiv (time_step_fp s) (GetVolume_fp (mesh_fp s) 0))
              (dsub (dmul (fluid_velocity_fp s) (time_curr (fc_temperature_fluid_fp s) ! 0))
                    (dmul (fluid_velocity_fp s) (temperature_hot_fp s))))"
proof -
  let ?T = "time_curr (fc_temperature_fluid_fp s)"
  let ?n = "GetNumCells_fp (mesh_fp s)"
  have n: "0 < ?n" using assms(1) by (simp add: solver_ok_fp_def)
  have f0: "flux_fluid_fp s ?T 0 (Fin 0) = dmul (fluid_velocity_fp s) (temperature_hot_fp s)"
    by (simp add: flux_fluid_fp_def dadd_zero_dmul)
  have f1: "flux_fluid_fp s ?T (Suc 0) (Fin 0) = dmul (fluid_velocity_fp s) (?T ! 0)"
  proof (cases "1 < ?n")
    case True
    then have "finite_double (dsub (?T ! 1) (?T ! 0))" using assms(6) by simp
    then have "dmul (Fin 0) (dsub (?T ! 1) (?T ! 0)) = Fin 0" by (rule dmul_zero_left)
    then show ?thesis
      using True
      by (simp add: flux_fluid_fp_def assms(2) ddiv_zero_by [OF assms(4,5)] dadd_zero_dmul
            dadd_dmul_zero)
  next
    case False
    then show ?thesis by (simp add: flux_fluid_fp_def dadd_zero_dmul)
  qed
  have "time_curr (fc_temperature_fluid_fp (CalcStep_fp s)) ! 0 = new_fluid_fp s 0"
    unfolding CalcStep_fp_eq_step_fp [OF assms(1)] using n
    by (simp add: step_fp_def upt_conv_Cons del: upt_Suc)
  also have "\<dots> = dsub (?T ! 0)
           (dmul (ddiv (time_step_fp s) (GetVolume_fp (mesh_fp s) 0))
              (dsub (dmul (fluid_velocity_fp s) (?T ! 0))
                    (dmul (fluid_velocity_fp s) (temperature_hot_fp s))))"
    unfolding new_fluid_fp_def Let_def f0 f1 assms(3) source_fp_def by simp
  finally show ?thesis .
qed

lemma example_solver_fp_ok:
  assumes "length Tf = 2" and "source_ok_fp 2 rhs_f" and "source_ok_fp 2 rhs_s"
  shows "solver_ok_fp (example_solver_fp h dt uf alpha_f alpha_s T_hot rhs_f rhs_s Tf)"
  using assms by (simp add: solver_ok_fp_def example_solver_fp_def HeatStorage_ctor_fp_def)

lemma no_overflow_2:
  assumes "finite_double a" and "finite_double b" and "finite_double (dsub b a)"
  shows "no_overflow [a, b]"
  using assms by (auto simp add: no_overflow_def less_Suc_eq nth_Cons')

lemma small_doubles:
  "rnd 1 = Fin 1" "rnd 2 = Fin 2" "rnd 3 = Fin 3" "rnd 4 = Fin 4" "rnd (- 1) = Fin (- 1)"
  "is_double 0" "is_double 1" "is_double 2" "is_double 3" "is_double 4"
  using rnd_int [of 1] rnd_int [of 2] rnd_int [of 3] rnd_int [of 4] rnd_int [of "- 1"]
    is_double_int [of 0] is_double_int [of 1] is_double_int [of 2] is_double_int [of 3] is_double_int [of 4]
  by simp_all

lemma overflow_quotient_NaN:
  assumes "ddiv dt h = PInf"
  shows "new_fluid_fp
           (HeatStorage_ctor_fp \<lparr>GetNumCells_fp = 1, GetVolume_fp = (\<lambda>i. h)\<rparr>
              dt (Fin 0) (Fin 0) (Fin 0) (Fin 1) (Fin 1) (Fin 0) (Fin 0) None None) 0 = NaN"
  by (simp add: new_fluid_fp_def flux_fluid_fp_def source_fp_def HeatStorage_ctor_fp_def
        dsub_def assms)

lemma overflow_difference_NaN:
  assumes "dsub b a = PInf"
  shows "new_fluid_fp
           (example_solver_fp h dt uf (Fin 0) alpha_s T_hot None None [a, b]) 0 = NaN"
proof -
  have "dmul (dneg (Fin 0)) (dsub b a) = NaN" unfolding assms by simp
  then have "flux_fluid_fp (example_solver_fp h dt uf (Fin 0) alpha_s T_hot None None [a, b])
               [a, b] (Suc 0) (Fin 0) = NaN"
    by (simp add: flux_fluid_fp_def example_solver_fp_def HeatStorage_ctor_fp_def
          del: dneg.simps)
  then show ?thesis
    by (simp add: new_fluid_fp_def source_fp_def example_solver_fp_def HeatStorage_ctor_fp_def
          dsub_def)
qed

lemma overflow_inflow_example:
  assumes "is_double B" and "is_double (- B)" and "rnd (B + B) = PInf"
  shows "time_curr (fc_temperature_fluid_fp (CalcStep_fp
           (example_solver_fp (Fin 1) (Fin 1) (Fin 1) (Fin 0) (Fin 0) (Fin 0)
              None None [Fin (- B), Fin B]))) ! 0 = NaN"
    and "time_curr (fc_temperature_fluid_fp (CalcStep_fp
           (example_solver_fp (Fin 1) (Fin 1) (Fin 1) (Fin 0) (Fin 0) (Fin 0)
              None None [Fin (- B), Fin 0]))) ! 0 = Fin 0"
proof -
  let ?s1 = "example_solver_fp (Fin 1) (Fin 1) (Fin 1) (Fin 0) (Fin 0) (Fin 0)
               None None [Fin (- B), Fin B]"
  let ?s2 = "example_solver_fp (Fin 1) (Fin 1) (Fin 1) (Fin 0) (Fin 0) (Fin 0)
               None None [Fin (- B), Fin 0]"
  have ok1: "solver_ok_fp ?s1" by (rule example_solver_fp_ok) (simp_all add: source_ok_fp_def)
  have ok2: "solver_ok_fp ?s2" by (rule example_solver_fp_ok) (simp_all add: source_ok_fp_def)
  have r: "rnd B = Fin B" "rnd (- B) = Fin (- B)"
    using assms(1,2) by (simp_all add: rnd_double)
  have ov: "dsub (Fin B) (Fin (- B)) = PInf"
    using assms(3) by (simp add: dsub_def)
  have new1: "new_fluid_fp ?s1 0 = NaN"
    using ov by (rule overflow_difference_NaN)
  have a: "time_curr (fc_temperature_fluid_fp (CalcStep_fp ?s1)) ! 0 = new_fluid_fp ?s1 0"
    unfolding CalcStep_fp_eq_step_fp [OF ok1]
    by (simp add: step_fp_def example_solver_fp_def HeatStorage_ctor_fp_def upt_conv_Cons
          del: upt_Suc)
  show "time_curr (fc_temperature_fluid_fp (CalcStep_fp ?s1)) ! 0 = NaN"
    unfolding a by (rule new1)
  have h: "conductivity_fluid_fp ?s2 = Fin 0" "p_fc_rhs_fluid_fp ?s2 = None"
    "GetVolume_fp (mesh_fp ?s2) 0 \<noteq> NaN" "GetVolume_fp (mesh_fp ?s2) 0 \<noteq> Fin 0"
    by (simp_all add: example_solver_fp_def HeatStorage_ctor_fp_def)
  have f: "1 < GetNumCells_fp (mesh_fp ?s2) \<longrightarrow>
         finite_double (dsub (time_curr (fc_temperature_fluid_fp ?s2) ! 1)
                             (time_curr (fc_temperature_fluid_fp ?s2) ! 0))"
    by (simp add: example_solver_fp_def HeatStorage_ctor_fp_def dsub_def r assms(1))
  show "time_curr (fc_temperature_fluid_fp (CalcStep_fp ?s2)) ! 0 = Fin 0"
    unfolding leftmost_new_fluid_fp [OF ok2 h f]
    by (simp add: example_solver_fp_def HeatStorage_ctor_fp_def dsub_def r small_doubles)
qed

section \<open>Example configurations: lemmas\<close>

lemma example_solver_ok:
  "source_ok 2 rhs_f \<Longrightarrow> source_ok 2 rhs_s \<Longrightarrow> length Tf = 2 \<Longrightarrow>
   solver_ok (example_solver uf alpha_f alpha_s rhs_f rhs_s Tf)"
  by (simp add: solver_ok_def example_solver_def HeatStorage_ctor_def InitUniformMesh_def)

lemma upt_2: "[0..<2] = [0, Suc 0]"
  by (simp add: numeral_2_eq_2)

section \<open>Mesh interpolator: lemmas\<close>

lemma advance_bracket_ok:
  "bracket_ok m (l, r) \<Longrightarrow> bracket_ok m (advance_bracket m x l r)"
proof (induction m x l r rule: advance_bracket.induct)
  case (1 m x l r)
  show ?case
  proof (cases "GetCenter m r < x")
    case False
    then show ?thesis using "1.prems" by simp
  next
    case True
    show ?thesis
    proof (cases "GetNeighbourCell m r 1")
      case None
      then show ?thesis using True "1.prems" by simp
    next
      case (Some r')
      then have "bracket_ok m (r, r')"
        by (auto simp: GetNeighbourCell_def bracket_ok_def split: if_splits)
      then show ?thesis using True Some "1.IH" by simp
    qed
  qed
qed


lemma GetInterpolated_loop_length:
  "length (GetInterpolated_loop fc ms md is br res) = length res"
  by (induction "is" arbitrary: br res) (simp_all add: Let_def)

lemma GetInterpolated_loop_other:
  "i \<notin> set is \<Longrightarrow> GetInterpolated_loop fc ms md is br res ! i = res ! i"
  by (induction "is" arbitrary: br res) (simp_all add: Let_def)




text \<open>
  At a destination centre that coincides with the centre of a source cell other than
  cell 0, the interpolated value is the value of that source cell.
\<close>

lemma advance_bracket_behind:
  "bracket_behind m (l, r) x' \<Longrightarrow> x \<le> x' \<Longrightarrow> bracket_behind m (advance_bracket m x l r) x'"
proof (induction m x l r rule: advance_bracket.induct)
  case (1 m x l r)
  show ?case
  proof (cases "GetCenter m r < x")
    case False
    then show ?thesis using "1.prems" by simp
  next
    case True
    show ?thesis
    proof (cases "GetNeighbourCell m r 1")
      case None
      then show ?thesis using True "1.prems" by simp
    next
      case (Some r')
      then have r': "r' = Suc r"
        by (auto simp: GetNeighbourCell_def split: if_splits)
      have "bracket_behind m (r, r') x'"
        using True "1.prems"(2) by (simp add: bracket_behind_def r')
      then show ?thesis using True Some "1.IH" "1.prems"(2) by simp
    qed
  qed
qed

lemma advance_bracket_landing:
  assumes "bracket_ok m (l, r)" and "mesh_ascending m"
    and "1 \<le> j" and "j < GetNumCells m" and "r \<le> j" and "x = GetCenter m j"
  shows "advance_bracket m x l r = (j - 1, j)"
  using assms
proof (induction m x l r rule: advance_bracket.induct)
  case (1 m x l r)
  show ?case
  proof (cases "r = j")
    case True
    then have "l = j - 1"
      using "1.prems"(1,3) by (auto simp: bracket_ok_def)
    then show ?thesis using True "1.prems"(6) by simp
  next
    case False
    then have rj: "r < j" using "1.prems"(5) by simp
    have lt: "GetCenter m r < x"
      using rj "1.prems"(2,4,6) unfolding mesh_ascending_def by blast
    have nb: "GetNeighbourCell m r 1 = Some (Suc r)"
      using rj "1.prems"(4) by (simp add: GetNeighbourCell_def)
    have ok: "bracket_ok m (r, Suc r)"
      using rj "1.prems"(4) by (simp add: bracket_ok_def)
    have le: "Suc r \<le> j" using rj by simp
    have "advance_bracket m x r (Suc r) = (j - 1, j)"
      by (rule "1.IH" [OF lt nb ok "1.prems"(2,3,4) le "1.prems"(6)])
    then show ?thesis using lt nb by simp
  qed
qed

lemma bracket_behind_le:
  assumes "bracket_ok m br" and "bracket_behind m br (GetCenter m j)"
    and "mesh_ascending m" and "j < GetNumCells m"
  shows "snd br \<le> j"
proof (rule ccontr)
  assume "\<not> snd br \<le> j"
  then have gt: "j < snd br" by simp
  then have lt: "GetCenter m (snd br - 1) < GetCenter m j"
    using assms(2) by (simp add: bracket_behind_def)
  have r: "snd br - 1 < GetNumCells m" using assms(1) by (auto simp: bracket_ok_def)
  show False
  proof (cases "j = snd br - 1")
    case True
    then show False using lt by simp
  next
    case False
    then have "j < snd br - 1" using gt by simp
    then have "GetCenter m j < GetCenter m (snd br - 1)"
      using r assms(3) unfolding mesh_ascending_def by blast
    then show False using lt by simp
  qed
qed

lemma GetInterpolated_scal_right:
  "x_l \<noteq> x \<Longrightarrow> GetInterpolated_scal x x_l x u_l u_r = Some u_r"
  by (simp add: GetInterpolated_scal_def)

lemma GetInterpolated_loop_at_centre:
  assumes "mesh_ascending ms" and "1 \<le> j" and "j < GetNumCells ms"
    and "GetCenter md i = GetCenter ms j"
  shows "distinct is \<Longrightarrow> sorted_wrt (\<lambda>a b. GetCenter md a \<le> GetCenter md b) is \<Longrightarrow>
    i \<in> set is \<Longrightarrow> i < length res \<Longrightarrow> bracket_ok ms br \<Longrightarrow>
    bracket_behind ms br (GetCenter md i) \<Longrightarrow>
    GetInterpolated_loop fc ms md is br res ! i = Some (fc ! j)"
proof (induction "is" arbitrary: br res)
  case Nil
  then show ?case by simp
next
  case (Cons k ks)
  let ?br' = "advance_bracket ms (GetCenter md k) (fst br) (snd br)"
  have ok': "bracket_ok ms ?br'"
    using Cons.prems(5) advance_bracket_ok [of ms "fst br" "snd br"] by simp
  show ?case
  proof (cases "k = i")
    case True
    have le: "snd br \<le> j"
      using Cons.prems(5,6) assms(1,3,4) bracket_behind_le [of ms br j] by simp
    have "?br' = (j - 1, j)"
      using advance_bracket_landing [of ms "fst br" "snd br" j "GetCenter md k"]
        Cons.prems(5) assms le True by simp
    moreover have "i \<notin> set ks" using Cons.prems(1) True by simp
    moreover have "GetCenter ms (j - 1) \<noteq> GetCenter ms j"
    proof -
      have "GetCenter ms (j - 1) < GetCenter ms j"
        using assms(1,2,3) unfolding mesh_ascending_def by simp
      then show ?thesis by simp
    qed
    ultimately show ?thesis
      using True Cons.prems(4) assms(4)
      by (simp add: Let_def GetInterpolated_loop_other GetInterpolated_scal_right)
  next
    case False
    then have mem: "i \<in> set ks" using Cons.prems(3) by simp
    then have le: "GetCenter md k \<le> GetCenter md i" using Cons.prems(2) by simp
    have behind': "bracket_behind ms ?br' (GetCenter md i)"
      using advance_bracket_behind [of ms "fst br" "snd br" "GetCenter md i" "GetCenter md k"]
        Cons.prems(6) le by simp
    have "distinct ks" "sorted_wrt (\<lambda>a b. GetCenter md a \<le> GetCenter md b) ks"
      using Cons.prems(1,2) by simp_all
    then show ?thesis
      using Cons.IH [OF _ _ mem _ ok' behind'] Cons.prems(4) by (simp add: Let_def)
  qed
qed

lemma GetInterpolated_at_centre:
  assumes "mesh_ascending mesh_src"
    and "\<forall>b < GetNumCells mesh_dest. \<forall>a < b. GetCenter mesh_dest a \<le> GetCenter mesh_dest b"
    and "idx_dest < GetNumCells mesh_dest"
    and "1 \<le> idx_src" and "idx_src < GetNumCells mesh_src"
    and "GetCenter mesh_dest idx_dest = GetCenter mesh_src idx_src"
  shows "GetInterpolated fc_src mesh_src mesh_dest ! idx_dest = Some (fc_src ! idx_src)"
proof -
  have srt: "sorted_wrt (\<lambda>a b. GetCenter mesh_dest a \<le> GetCenter mesh_dest b)
               [0..<GetNumCells mesh_dest]"
    using assms(2) by (simp add: sorted_wrt_iff_nth_less)
  have b0: "bracket_ok mesh_src (0, 0)"
    using assms(5) by (simp add: bracket_ok_def)
  have bh: "bracket_behind mesh_src (0, 0) (GetCenter mesh_dest idx_dest)"
    by (simp add: bracket_behind_def)
  show ?thesis
    unfolding GetInterpolated_def Cells_def
    by (rule GetInterpolated_loop_at_centre [OF assms(1,4,5,6) _ srt _ _ b0 bh])
       (use assms(3) in simp_all)
qed

section \<open>Convergence tester: lemmas\<close>

lemma upd_back_snoc: "upd_back f (xs @ [e]) = xs @ [f e]"
  by (simp add: upd_back_def)

lemma TesterMms_stage_snoc:
  "\<exists>e. TesterMms_stage CalcDiff domain_length num_steps dt step_threshold uf conductivity Tleft
          func_rhs func_exact num_cells series = series @ [e] \<and>
        diff_with_itself CalcDiff e"
  by (simp add: TesterMms_stage_def Let_def upd_back_snoc diff_with_itself_def)

lemma TesterMms_loop_diff_with_itself:
  "list_all (diff_with_itself CalcDiff) series \<Longrightarrow>
   list_all (diff_with_itself CalcDiff)
     (TesterMms_loop CalcDiff factor domain_length num_steps dt step_threshold uf conductivity
        Tleft func_rhs func_exact stages num_cells series)"
proof (induction stages arbitrary: num_cells series)
  case Nil
  then show ?case by simp
next
  case (Cons i stages)
  obtain e where
    "TesterMms_stage CalcDiff domain_length num_steps dt step_threshold uf conductivity Tleft
       func_rhs func_exact num_cells series = series @ [e]"
    and "diff_with_itself CalcDiff e"
    using TesterMms_stage_snoc by blast
  then show ?case using Cons by simp
qed

lemma advance_bracket_stay:
  "\<not> GetCenter m r < x \<Longrightarrow> advance_bracket m x l r = (l, r)"
  by simp

lemma GetInterpolated_self_first_cell:
  assumes "0 < GetNumCells m"
  shows "GetInterpolated fc m m ! 0 = None"
proof -
  have cells: "Cells m = 0 # [Suc 0..<GetNumCells m]"
    using assms by (simp add: Cells_def upt_conv_Cons)
  have "0 \<notin> set [Suc 0..<GetNumCells m]" by simp
  then show ?thesis
    unfolding GetInterpolated_def cells using assms
    by (simp add: Let_def GetInterpolated_loop_other GetInterpolated_scal_def
          del: advance_bracket.simps add: advance_bracket_stay)
qed

lemma TesterMms_one_stage:
  "TesterMms CalcDiff 1 1 factor 1 0 dt step_threshold uf conductivity Tleft func_rhs func_exact
   = [\<lparr>diff_prev = CalcDiff [Some Tleft] [None] (InitUniformMesh 0 1 1),
       error = CalcDiff [Some (func_exact 0 (1 / 2))] [Some Tleft] (InitUniformMesh 0 1 1),
       entry_mesh = InitUniformMesh 0 1 1,
       fc_fluid_temperature = [Tleft],
       fc_exact_fluid_temperature = [func_exact 0 (1 / 2)],
       solver = Some (HeatStorage_ctor (InitUniformMesh 0 1 1) dt uf conductivity conductivity
                        Tleft Tleft 0 0 (Some [func_rhs 0 (1 / 2)]) (Some [0]))\<rparr>]"
  by (simp add: TesterMms_def TesterMms_stage_def Let_def upd_back_def Entry_empty_def
        HeatStorage_ctor_def Evaluate_def Cells_def InitUniformMesh_def
        GetInterpolated_def GetInterpolated_scal_def)

lemma TesterMms_diff_prev_self_comparison:
  "list_all (diff_with_itself CalcDiff)
     (TesterMms CalcDiff num_cells_initial num_stages factor domain_length num_steps dt
        step_threshold uf conductivity Tleft func_rhs_fluid func_exact_fluid_temperature)"
  unfolding TesterMms_def
  by (rule TesterMms_loop_diff_with_itself) simp

lemma max_diff_fold_nonneg:
  "0 \<le> r \<Longrightarrow> 0 \<le> fold (\<lambda>idx res. case (a ! idx, b ! idx) of
                              (Some x, Some y) \<Rightarrow> max res \<bar>x - y\<bar>
                            | _ \<Rightarrow> res) is (r::real)"
  by (induction "is" arbitrary: r) (auto split: option.splits)

lemma max_diff_fold_zero:
  "0 \<le> r \<Longrightarrow>
   (fold (\<lambda>idx res. case (a ! idx, b ! idx) of
                              (Some x, Some y) \<Rightarrow> max res \<bar>x - y\<bar>
                            | _ \<Rightarrow> res) is (r::real) = 0) =
   (r = 0 \<and> (\<forall>i \<in> set is. \<forall>x y. a ! i = Some x \<and> b ! i = Some y \<longrightarrow> x = y))"
proof (induction "is" arbitrary: r)
  case Nil
  then show ?case by simp
next
  case (Cons i "is")
  show ?case
  proof (cases "a ! i")
    case None
    then show ?thesis using Cons by simp
  next
    case (Some x)
    note ax = this
    show ?thesis
    proof (cases "b ! i")
      case None
      then show ?thesis using Cons ax by simp
    next
      case (Some y)
      have "0 \<le> max r \<bar>x - y\<bar>" using Cons.prems by simp
      from Cons.IH [OF this] show ?thesis
        using ax Some Cons.prems by (auto simp: max_def split: if_splits)
    qed
  qed
qed

lemma max_diff_norm_skipping_NaN: "norm_skipping_NaN max_diff"
proof -
  have "(max_diff a b m = Some 0) = agree_on m a b" for a b m
    unfolding max_diff_def agree_on_def Cells_def option.inject
    by (subst max_diff_fold_zero) auto
  then show ?thesis by (simp add: norm_skipping_NaN_def)
qed


lemma TesterMms_stage_entry:
  "\<exists>e. TesterMms_stage CalcDiff domain_length num_steps dt step_threshold uf conductivity Tleft
          func_rhs func_exact num_cells series = series @ [e] \<and>
        diff_with_itself CalcDiff e \<and>
        entry_mesh e = InitUniformMesh 0 domain_length num_cells \<and>
        fc_fluid_temperature e =
          time_curr (fc_temperature_fluid
            (fst (step_loop CalcDiff step_threshold [0..<num_steps]
               (HeatStorage_ctor (InitUniformMesh 0 domain_length num_cells) dt uf
                  conductivity conductivity Tleft Tleft 0 0
                  (Some (Evaluate func_rhs 0 (InitUniformMesh 0 domain_length num_cells)))
                  (Some (replicate num_cells 0))))))"
  by (simp add: TesterMms_stage_def Let_def upd_back_snoc diff_with_itself_def InitUniformMesh_def)

lemma step_loop_one:
  "fst (step_loop CalcDiff thr [n] s) = CalcStep s"
  by (simp add: Let_def StartStep_def FinishStep_def)


lemma self_interpolation_agrees:
  assumes "mesh_ascending m" and "length fc = GetNumCells m"
  shows "agree_on m (map Some fc) (GetInterpolated fc m m)"
  unfolding agree_on_def
proof (intro allI impI)
  fix i x y
  assume i: "i < GetNumCells m"
    and xy: "map Some fc ! i = Some x \<and> GetInterpolated fc m m ! i = Some y"
  have mono: "\<forall>b < GetNumCells m. \<forall>a < b. GetCenter m a \<le> GetCenter m b"
    using assms(1) unfolding mesh_ascending_def by (meson less_imp_le)
  show "x = y"
  proof (cases "i = 0")
    case True
    then show ?thesis
      using xy i GetInterpolated_self_first_cell [of m fc] by simp
  next
    case False
    then have "GetInterpolated fc m m ! i = Some (fc ! i)"
      using GetInterpolated_at_centre [OF assms(1) mono i _ i refl, of fc] by simp
    then show ?thesis using xy i assms(2) by simp
  qed
qed

lemma two_stage_fields:
  "time_curr (fc_temperature_fluid (CalcStep
      (HeatStorage_ctor (InitUniformMesh 0 2 2) 1 0 0 0 0 0 0 0
         (Some (Evaluate (\<lambda>t x. x * x) 0 (InitUniformMesh 0 2 2))) (Some (replicate 2 0)))))
   = [1 / 4, 9 / 4]"
  "time_curr (fc_temperature_fluid (CalcStep
      (HeatStorage_ctor (InitUniformMesh 0 2 4) 1 0 0 0 0 0 0 0
         (Some (Evaluate (\<lambda>t x. x * x) 0 (InitUniformMesh 0 2 4))) (Some (replicate 4 0)))))
   = [1 / 16, 9 / 16, 25 / 16, 49 / 16]"
  by code_simp+

lemma interp_2_onto_4:
  "GetInterpolated [1 / 4, 9 / 4] (InitUniformMesh 0 2 2) (InitUniformMesh 0 2 4)
   = [None, Some (3 / 4), Some (7 / 4), Some (11 / 4)]"
  by code_simp

lemma mesh_4_ascending: "mesh_ascending (InitUniformMesh 0 2 4)"
  by (simp add: mesh_ascending_def InitUniformMesh_def)

lemma mesh_2_ascending: "mesh_ascending (InitUniformMesh 0 2 2)"
  by (simp add: mesh_ascending_def InitUniformMesh_def)

lemma two_stage_series:
  "\<exists>e1 e2.
     TesterMms CalcDiff 2 2 2 2 1 1 thr 0 0 0 (\<lambda>t x. x * x) func_exact = [e1, e2] \<and>
     entry_mesh e1 = InitUniformMesh 0 2 2 \<and> fc_fluid_temperature e1 = [1 / 4, 9 / 4] \<and>
     entry_mesh e2 = InitUniformMesh 0 2 4 \<and>
     fc_fluid_temperature e2 = [1 / 16, 9 / 16, 25 / 16, 49 / 16] \<and>
     diff_with_itself CalcDiff e1 \<and> diff_with_itself CalcDiff e2"
proof -
  obtain e1 where e1:
    "TesterMms_stage CalcDiff 2 1 1 thr 0 0 0 (\<lambda>t x. x * x) func_exact 2 [] = [] @ [e1]"
    "diff_with_itself CalcDiff e1" "entry_mesh e1 = InitUniformMesh 0 2 2"
    "fc_fluid_temperature e1 = [1 / 4, 9 / 4]"
    using TesterMms_stage_entry [of CalcDiff 2 1 1 thr 0 0 0 "\<lambda>t x. x * x" func_exact 2 "[]"]
    by (auto simp: step_loop_one two_stage_fields simp del: step_loop.simps)
  obtain e2 where e2:
    "TesterMms_stage CalcDiff 2 1 1 thr 0 0 0 (\<lambda>t x. x * x) func_exact 4 [e1] = [e1] @ [e2]"
    "diff_with_itself CalcDiff e2" "entry_mesh e2 = InitUniformMesh 0 2 4"
    "fc_fluid_temperature e2 = [1 / 16, 9 / 16, 25 / 16, 49 / 16]"
    using TesterMms_stage_entry [of CalcDiff 2 1 1 thr 0 0 0 "\<lambda>t x. x * x" func_exact 4 "[e1]"]
    by (auto simp: step_loop_one two_stage_fields simp del: step_loop.simps)
  have "TesterMms CalcDiff 2 2 2 2 1 1 thr 0 0 0 (\<lambda>t x. x * x) func_exact = [e1, e2]"
    using e1(1) e2(1) by (simp add: TesterMms_def upt_2)
  then show ?thesis using e1 e2 by blast
qed

lemma TesterMms_first_stage_propagating:
  assumes "norm_propagating_NaN CalcDiff"
  shows "\<exists>e1 e2.
     TesterMms CalcDiff 2 2 2 2 1 1 thr 0 0 0 (\<lambda>t x. x * x) func_exact = [e1, e2] \<and>
     diff_prev e1 = None"
proof -
  obtain e1 e2 where run:
    "TesterMms CalcDiff 2 2 2 2 1 1 thr 0 0 0 (\<lambda>t x. x * x) func_exact = [e1, e2]"
    and m1: "entry_mesh e1 = InitUniformMesh 0 2 2"
    and d1: "diff_with_itself CalcDiff e1"
    using two_stage_series by blast
  have "GetInterpolated (fc_fluid_temperature e1) (entry_mesh e1) (entry_mesh e1) ! 0 = None"
    unfolding m1 by (rule GetInterpolated_self_first_cell) (simp add: InitUniformMesh_def)
  moreover have "0 < GetNumCells (entry_mesh e1)" by (simp add: m1 InitUniformMesh_def)
  ultimately have "diff_prev e1 = None"
    using d1 assms unfolding diff_with_itself_def norm_propagating_NaN_def by metis
  with run show ?thesis by blast
qed

section \<open>Selection of the manufactured solution: lemmas\<close>

lemma derived_rhs_cos:
  "derived_rhs uf alpha (\<lambda>t x. cos (x * k))
     (\<lambda>t x. - uf * k * sin (x * k) + alpha * sqr k * cos (x * k))"
  unfolding derived_rhs_def
proof (intro exI allI conjI)
  fix t x :: real
  show "((\<lambda>x. cos (x * k)) has_real_derivative (\<lambda>t x. - (k * sin (x * k))) t x) (at x)"
    by (auto intro!: derivative_eq_intros)
  show "((\<lambda>t x. - (k * sin (x * k))) t has_real_derivative
          (\<lambda>t x. - (k * k * cos (x * k))) t x) (at x)"
    by (auto intro!: derivative_eq_intros)
  show "- uf * k * sin (x * k) + alpha * sqr k * cos (x * k) =
        uf * (\<lambda>t x. - (k * sin (x * k))) t x - alpha * (\<lambda>t x. - (k * k * cos (x * k))) t x"
    by (simp add: sqr_def algebra_simps)
qed

lemma derived_rhs_cos_sqr:
  "derived_rhs uf alpha (\<lambda>t x. cos (sqr x * k))
     (\<lambda>t x. - uf * k * 2 * x * sin (sqr x * k)
              + alpha * (sqr k * 4 * sqr x * cos (sqr x * k) + k * 2 * sin (sqr x * k)))"
  unfolding derived_rhs_def sqr_def
proof (intro exI allI conjI)
  fix t x :: real
  show "((\<lambda>x. cos (x * x * k)) has_real_derivative
          (\<lambda>t x. - (2 * k * x * sin (x * x * k))) t x) (at x)"
    by (auto intro!: derivative_eq_intros simp: algebra_simps)
  show "((\<lambda>t x. - (2 * k * x * sin (x * x * k))) t has_real_derivative
          (\<lambda>t x. - (2 * k * sin (x * x * k)) - 4 * k * k * x * x * cos (x * x * k)) t x) (at x)"
    by (auto intro!: derivative_eq_intros simp: algebra_simps)
  show "- uf * k * 2 * x * sin (x * x * k)
          + alpha * (k * k * 4 * (x * x) * cos (x * x * k) + k * 2 * sin (x * x * k)) =
        uf * (\<lambda>t x. - (2 * k * x * sin (x * x * k))) t x
          - alpha * (\<lambda>t x. - (2 * k * sin (x * x * k)) - 4 * k * k * x * x * cos (x * x * k)) t x"
    by (simp add: algebra_simps)
qed


lemma mms_functions_cos:
  "mms_functions uf alpha k ''cos(kx)'' =
     Inr (\<lambda>t x. cos (x * k), \<lambda>t x. - uf * k * sin (x * k) + alpha * sqr k * cos (x * k))"
  by (simp add: mms_functions_def)

lemma mms_functions_cos_sqr:
  "mms_functions uf alpha k ''cos(kx^2)'' =
     Inr (\<lambda>t x. cos (sqr x * k),
          \<lambda>t x. - uf * k * 2 * x * sin (sqr x * k)
                   + alpha * (sqr k * 4 * sqr x * cos (sqr x * k) + k * 2 * sin (sqr x * k)))"
  by (simp add: mms_functions_def)

lemma mms_functions_unknown:
  "mmsfunc \<noteq> ''cos(kx)'' \<Longrightarrow> mmsfunc \<noteq> ''cos(kx^2)'' \<Longrightarrow>
   mms_functions uf alpha k mmsfunc = Inl (''Unknown MMS_exact_solution: '' @ mmsfunc)"
  by (simp add: mms_functions_def)

lemma mms_functions_recognised:
  assumes "mmsfunc = ''cos(kx)'' \<or> mmsfunc = ''cos(kx^2)''"
  shows "\<exists>func_exact func_rhs.
           mms_functions uf alpha k mmsfunc = Inr (func_exact, func_rhs) \<and>
           derived_rhs uf alpha func_exact func_rhs"
  using assms
proof
  assume "mmsfunc = ''cos(kx)''"
  then show ?thesis
    using derived_rhs_cos [of uf alpha k] by (simp only: mms_functions_cos) blast
next
  assume "mmsfunc = ''cos(kx^2)''"
  then show ?thesis
    using derived_rhs_cos_sqr [of uf alpha k] by (simp only: mms_functions_cos_sqr) blast
qed

section \<open>Scheduler: periodicity and classification\<close>







section \<open>Transport solver: one step\<close>

text \<open>
  Claim C3. On a solver whose fields have the size of its mesh, one call of \<open>CalcStep\<close>
  is the reference update: the previous layers receive what was current, and the new
  current value of every cell is the previous value minus \<open>dt / h\<close> times the
  difference of the fluxes at its plus and minus faces (left boundary: fluid \<open>u * T_in\<close>,
  solid 0; right boundary: fluid \<open>u * T(minus)\<close>, solid 0; interior: fluid
  \<open>u * T(minus) - alpha_f * (T(plus) - T(minus)) / h\<close>, solid
  \<open>- alpha_s * (T(plus) - T(minus)) / h\<close>, all from previous-layer values), plus
  \<open>dt * source\<close> where a source field is supplied. Nothing else of the solver changes.
\<close>

theorem CalcStep_reference_update:
  assumes "solver_ok s"
  shows "CalcStep s = spec_step s \<and>
         time_prev (fc_temperature_fluid (CalcStep s)) = time_curr (fc_temperature_fluid s) \<and>
         time_prev (fc_temperature_solid (CalcStep s)) = time_curr (fc_temperature_solid s) \<and>
         length (time_curr (fc_temperature_fluid (CalcStep s))) = GetNumCells (mesh s) \<and>
         length (time_curr (fc_temperature_solid (CalcStep s))) = GetNumCells (mesh s) \<and>
         (\<forall>i < GetNumCells (mesh s).
            time_curr (fc_temperature_fluid (CalcStep s)) ! i = spec_new_fluid s i \<and>
            time_curr (fc_temperature_solid (CalcStep s)) ! i = spec_new_solid s i)"
  unfolding CalcStep_eq_spec_step [OF assms]
  by (simp add: spec_step_def)

theorem CalcStep_reference_update_witness:
  "solver_ok (example_solver 1 1 1 (Some [1, 0]) None [2, 4]) \<and>
   time_curr (fc_temperature_fluid (CalcStep (example_solver 1 1 1 (Some [1, 0]) None [2, 4])))
     = [4, 2] \<and>
   time_prev (fc_temperature_fluid (CalcStep (example_solver 1 1 1 (Some [1, 0]) None [2, 4])))
     = [2, 4] \<and>
   time_curr (fc_temperature_solid (CalcStep (example_solver 1 1 1 (Some [1, 0]) None [2, 4])))
     = [1, 1]"
proof -
  let ?s = "example_solver 1 1 1 (Some [1, 0]) None [2, 4]"
  have ok: "solver_ok ?s"
    by (rule example_solver_ok) (simp_all add: source_ok_def)
  have f: "map (spec_new_fluid ?s) [0..<GetNumCells (mesh ?s)] = [4, 2]"
    by (simp add: example_solver_def HeatStorage_ctor_def InitUniformMesh_def upt_2
          spec_new_fluid_def spec_flux_fluid_def spec_source_def)
  have g: "map (spec_new_solid ?s) [0..<GetNumCells (mesh ?s)] = [1, 1]"
    by (simp add: example_solver_def HeatStorage_ctor_def InitUniformMesh_def upt_2
          spec_new_solid_def spec_flux_solid_def spec_source_def numeral_2_eq_2)
  have c: "time_curr (fc_temperature_fluid ?s) = [2, 4]"
    by (simp add: example_solver_def)
  from CalcStep_reference_update [OF ok] have "CalcStep ?s = spec_step ?s" by simp
  then show ?thesis
    unfolding spec_step_def f g c using ok by simp
qed


section \<open>Transport solver: no transport and no source\<close>

text \<open>
  Claim C5, as the code has it in binary64 arithmetic. With zero advective velocity, zero
  fluid and solid conductivity and sources that are zero or absent, and with an inflow
  temperature, a quotient \<open>dt / h\<close>, cell values and differences of neighbouring cell
  values that are all finite (no overflow, no infinity and no NaN), the current fluid and
  solid fields after any number of calls of \<open>CalcStep\<close> are the fields before.
\<close>

theorem CalcStep_at_rest_unchanged:
  assumes "solver_ok_fp s" and "fluid_velocity_fp s = Fin 0"
    and "conductivity_fluid_fp s = Fin 0" and "conductivity_solid_fp s = Fin 0"
    and "zero_source_fp (GetNumCells_fp (mesh_fp s)) (p_fc_rhs_fluid_fp s)"
    and "zero_source_fp (GetNumCells_fp (mesh_fp s)) (p_fc_rhs_solid_fp s)"
    and "finite_double (temperature_hot_fp s)"
    and "finite_double (ddiv (time_step_fp s) (GetVolume_fp (mesh_fp s) 0))"
    and "no_overflow (time_curr (fc_temperature_fluid_fp s))"
    and "no_overflow (time_curr (fc_temperature_solid_fp s))"
  shows "time_curr (fc_temperature_fluid_fp ((CalcStep_fp ^^ n) s))
           = time_curr (fc_temperature_fluid_fp s) \<and>
         time_curr (fc_temperature_solid_fp ((CalcStep_fp ^^ n) s))
           = time_curr (fc_temperature_solid_fp s)"
proof -
  have "at_rest_fp s" using assms by (simp add: at_rest_fp_def)
  then show ?thesis using at_rest_steps_fp [of s n] by simp
qed

theorem CalcStep_at_rest_unchanged_witness:
  "time_curr (fc_temperature_fluid_fp
      ((CalcStep_fp ^^ 3)
         (example_solver_fp (Fin 1) (Fin 1) (Fin 0) (Fin 0) (Fin 0) (Fin 3)
            (Some [Fin 0, Fin 0]) None [Fin 2, Fin 4]))) = [Fin 2, Fin 4] \<and>
   time_curr (fc_temperature_solid_fp
      ((CalcStep_fp ^^ 3)
         (example_solver_fp (Fin 1) (Fin 1) (Fin 0) (Fin 0) (Fin 0) (Fin 3)
            (Some [Fin 0, Fin 0]) None [Fin 2, Fin 4]))) = [Fin 1, Fin 1]"
proof -
  let ?s = "example_solver_fp (Fin 1) (Fin 1) (Fin 0) (Fin 0) (Fin 0) (Fin 3)
              (Some [Fin 0, Fin 0]) None [Fin 2, Fin 4]"
  have ok: "solver_ok_fp ?s"
    by (rule example_solver_fp_ok) (simp_all add: source_ok_fp_def)
  have p: "fluid_velocity_fp ?s = Fin 0" "conductivity_fluid_fp ?s = Fin 0"
    "conductivity_solid_fp ?s = Fin 0"
    by (simp_all add: example_solver_fp_def HeatStorage_ctor_fp_def)
  have z: "zero_source_fp (GetNumCells_fp (mesh_fp ?s)) (p_fc_rhs_fluid_fp ?s)"
    "zero_source_fp (GetNumCells_fp (mesh_fp ?s)) (p_fc_rhs_solid_fp ?s)"
    by (simp_all add: example_solver_fp_def HeatStorage_ctor_fp_def zero_source_fp_def
          numeral_2_eq_2)
  have c: "time_curr (fc_temperature_fluid_fp ?s) = [Fin 2, Fin 4]"
    "time_curr (fc_temperature_solid_fp ?s) = [Fin 1, Fin 1]"
    by (simp_all add: example_solver_fp_def HeatStorage_ctor_fp_def numeral_2_eq_2)
  have hot: "finite_double (temperature_hot_fp ?s)"
    by (simp add: example_solver_fp_def HeatStorage_ctor_fp_def small_doubles)
  have q: "finite_double (ddiv (time_step_fp ?s) (GetVolume_fp (mesh_fp ?s) 0))"
    by (simp add: example_solver_fp_def HeatStorage_ctor_fp_def small_doubles)
  have nf: "no_overflow (time_curr (fc_temperature_fluid_fp ?s))"
    unfolding c by (rule no_overflow_2) (simp_all add: dsub_def small_doubles)
  have ns: "no_overflow (time_curr (fc_temperature_solid_fp ?s))"
    unfolding c by (rule no_overflow_2) (simp_all add: dsub_def small_doubles)
  from CalcStep_at_rest_unchanged [OF ok p z hot q nf ns, of 3] show ?thesis
    unfolding c .
qed


text \<open>
  Claim C5 as stated fails in binary64 arithmetic. A solver as its constructor leaves it,
  on one cell of volume \<open>2 ^ -997\<close> with the time step \<open>2 ^ 34\<close>, zero velocity, zero
  conductivities, no sources and all temperatures 1: every input is a finite double, the
  quotient \<open>dt / h\<close> overflows to an infinity, its product with the zero flux sum is a
  NaN, and so is the new fluid value of the cell.
\<close>

theorem CalcStep_at_rest_unchanged_counterexample:
  "finite_double (Fin (2 ^ 34)) \<and> finite_double (Fin (1 / 2 ^ 997)) \<and>
   time_curr (fc_temperature_fluid_fp
      (HeatStorage_ctor_fp \<lparr>GetNumCells_fp = 1, GetVolume_fp = (\<lambda>i. Fin (1 / 2 ^ 997))\<rparr>
         (Fin (2 ^ 34)) (Fin 0) (Fin 0) (Fin 0) (Fin 1) (Fin 1) (Fin 0) (Fin 0) None None))
     = [Fin 1] \<and>
   time_curr (fc_temperature_fluid_fp (CalcStep_fp
      (HeatStorage_ctor_fp \<lparr>GetNumCells_fp = 1, GetVolume_fp = (\<lambda>i. Fin (1 / 2 ^ 997))\<rparr>
         (Fin (2 ^ 34)) (Fin 0) (Fin 0) (Fin 0) (Fin 1) (Fin 1) (Fin 0) (Fin 0) None None)))
     = [NaN]"
proof -
  let ?s = "HeatStorage_ctor_fp \<lparr>GetNumCells_fp = 1, GetVolume_fp = (\<lambda>i. Fin (1 / 2 ^ 997))\<rparr>
         (Fin (2 ^ 34)) (Fin 0) (Fin 0) (Fin 0) (Fin 1) (Fin 1) (Fin 0) (Fin 0) None None"
  have ok: "solver_ok_fp ?s"
    by (simp add: solver_ok_fp_def HeatStorage_ctor_fp_def source_ok_fp_def)
  have d1: "is_double (2 ^ 34)"
    using is_double_int [of "2 ^ 34"] by simp
  have d2: "is_double (1 / 2 ^ 997)"
    by (rule is_doubleI [of 1 "- 997"]) (simp_all add: p2_def)
  have q: "ddiv (Fin (2 ^ 34)) (Fin (1 / 2 ^ 997)) = PInf"
    using rnd_overflow [of "2 ^ 34 / (1 / 2 ^ 997)"] by simp
  have new: "new_fluid_fp ?s 0 = NaN"
    using q by (rule overflow_quotient_NaN)
  have "time_curr (fc_temperature_fluid_fp (CalcStep_fp ?s)) = [new_fluid_fp ?s 0]"
    unfolding CalcStep_fp_eq_step_fp [OF ok]
    by (simp add: step_fp_def HeatStorage_ctor_fp_def)
  then show ?thesis
    unfolding new using d1 d2 by (simp add: HeatStorage_ctor_fp_def)
qed

section \<open>Transport solver: the inflow cell\<close>

text \<open>
  Claim C6, as the code has it in binary64 arithmetic. After one call of \<open>CalcStep\<close> with
  zero fluid conductivity and no fluid source, a cell volume that is neither zero nor a
  NaN and, when there is a second cell, a finite difference between the fluid values of
  the second and the leftmost cell, the new fluid value of the leftmost cell is
  \<open>T0 - dt / h * (u * T0 - u * T_in)\<close> as the machine computes it, where \<open>T0\<close> is its
  previous value: two such solvers that agree on \<open>T0\<close>, \<open>T_in\<close>, \<open>u\<close>, \<open>dt\<close> and \<open>h\<close>
  get the same value, whatever their other cells hold and however many cells they have.
\<close>

theorem leftmost_cell_inflow:
  assumes "solver_ok_fp s1" and "solver_ok_fp s2"
    and "conductivity_fluid_fp s1 = Fin 0" and "conductivity_fluid_fp s2 = Fin 0"
    and "p_fc_rhs_fluid_fp s1 = None" and "p_fc_rhs_fluid_fp s2 = None"
    and "fluid_velocity_fp s1 = fluid_velocity_fp s2"
    and "temperature_hot_fp s1 = temperature_hot_fp s2"
    and "time_step_fp s1 = time_step_fp s2"
    and "GetVolume_fp (mesh_fp s1) 0 = GetVolume_fp (mesh_fp s2) 0"
    and "time_curr (fc_temperature_fluid_fp s1) ! 0 = time_curr (fc_temperature_fluid_fp s2) ! 0"
    and "GetVolume_fp (mesh_fp s1) 0 \<noteq> NaN" and "GetVolume_fp (mesh_fp s1) 0 \<noteq> Fin 0"
    and "1 < GetNumCells_fp (mesh_fp s1) \<longrightarrow>
         finite_double (dsub (time_curr (fc_temperature_fluid_fp s1) ! 1)
                             (time_curr (fc_temperature_fluid_fp s1) ! 0))"
    and "1 < GetNumCells_fp (mesh_fp s2) \<longrightarrow>
         finite_double (dsub (time_curr (fc_temperature_fluid_fp s2) ! 1)
                             (time_curr (fc_temperature_fluid_fp s2) ! 0))"
  shows "time_curr (fc_temperature_fluid_fp (CalcStep_fp s1)) ! 0 =
         time_curr (fc_temperature_fluid_fp (CalcStep_fp s2)) ! 0 \<and>
         time_curr (fc_temperature_fluid_fp (CalcStep_fp s1)) ! 0 =
           dsub (time_curr (fc_temperature_fluid_fp s1) ! 0)
             (dmul (ddiv (time_step_fp s1) (GetVolume_fp (mesh_fp s1) 0))
                (dsub (dmul (fluid_velocity_fp s1) (time_curr (fc_temperature_fluid_fp s1) ! 0))
                      (dmul (fluid_velocity_fp s1) (temperature_hot_fp s1))))"
proof -
  have h2: "GetVolume_fp (mesh_fp s2) 0 \<noteq> NaN" "GetVolume_fp (mesh_fp s2) 0 \<noteq> Fin 0"
    using assms(10,12,13) by simp_all
  show ?thesis
    unfolding leftmost_new_fluid_fp [OF assms(1,3,5,12,13,14)]
      leftmost_new_fluid_fp [OF assms(2,4,6) h2 assms(15)]
    using assms(7-11) by simp
qed

theorem leftmost_cell_inflow_witness:
  "time_curr (fc_temperature_fluid_fp (CalcStep_fp
      (example_solver_fp (Fin 1) (Fin 1) (Fin 1) (Fin 0) (Fin 0) (Fin 3)
         None None [Fin 2, Fin 4]))) ! 0 =
   time_curr (fc_temperature_fluid_fp (CalcStep_fp
      (example_solver_fp (Fin 1) (Fin 1) (Fin 1) (Fin 0) (Fin 3) (Fin 3)
         None (Some [Fin 1, Fin 1]) [Fin 2, Fin 3]))) ! 0 \<and>
   time_curr (fc_temperature_fluid_fp (CalcStep_fp
      (example_solver_fp (Fin 1) (Fin 1) (Fin 1) (Fin 0) (Fin 0) (Fin 3)
         None None [Fin 2, Fin 4]))) ! 0 = Fin 3"
proof -
  let ?s1 = "example_solver_fp (Fin 1) (Fin 1) (Fin 1) (Fin 0) (Fin 0) (Fin 3)
               None None [Fin 2, Fin 4]"
  let ?s2 = "example_solver_fp (Fin 1) (Fin 1) (Fin 1) (Fin 0) (Fin 3) (Fin 3)
               None (Some [Fin 1, Fin 1]) [Fin 2, Fin 3]"
  have ok1: "solver_ok_fp ?s1" by (rule example_solver_fp_ok) (simp_all add: source_ok_fp_def)
  have ok2: "solver_ok_fp ?s2" by (rule example_solver_fp_ok) (simp_all add: source_ok_fp_def)
  have h: "conductivity_fluid_fp ?s1 = Fin 0" "conductivity_fluid_fp ?s2 = Fin 0"
    "p_fc_rhs_fluid_fp ?s1 = None" "p_fc_rhs_fluid_fp ?s2 = None"
    "fluid_velocity_fp ?s1 = fluid_velocity_fp ?s2"
    "temperature_hot_fp ?s1 = temperature_hot_fp ?s2"
    "time_step_fp ?s1 = time_step_fp ?s2"
    "GetVolume_fp (mesh_fp ?s1) 0 = GetVolume_fp (mesh_fp ?s2) 0"
    "time_curr (fc_temperature_fluid_fp ?s1) ! 0 = time_curr (fc_temperature_fluid_fp ?s2) ! 0"
    "GetVolume_fp (mesh_fp ?s1) 0 \<noteq> NaN" "GetVolume_fp (mesh_fp ?s1) 0 \<noteq> Fin 0"
    by (simp_all add: example_solver_fp_def HeatStorage_ctor_fp_def)
  have f1: "1 < GetNumCells_fp (mesh_fp ?s1) \<longrightarrow>
         finite_double (dsub (time_curr (fc_temperature_fluid_fp ?s1) ! 1)
                             (time_curr (fc_temperature_fluid_fp ?s1) ! 0))"
    by (simp add: example_solver_fp_def HeatStorage_ctor_fp_def dsub_def small_doubles)
  have f2: "1 < GetNumCells_fp (mesh_fp ?s2) \<longrightarrow>
         finite_double (dsub (time_curr (fc_temperature_fluid_fp ?s2) ! 1)
                             (time_curr (fc_temperature_fluid_fp ?s2) ! 0))"
    by (simp add: example_solver_fp_def HeatStorage_ctor_fp_def dsub_def small_doubles)
  have v: "dsub (time_curr (fc_temperature_fluid_fp ?s1) ! 0)
             (dmul (ddiv (time_step_fp ?s1) (GetVolume_fp (mesh_fp ?s1) 0))
                (dsub (dmul (fluid_velocity_fp ?s1) (time_curr (fc_temperature_fluid_fp ?s1) ! 0))
                      (dmul (fluid_velocity_fp ?s1) (temperature_hot_fp ?s1)))) = Fin 3"
    by (simp add: example_solver_fp_def HeatStorage_ctor_fp_def dsub_def small_doubles)
  from leftmost_cell_inflow [OF ok1 ok2 h f1 f2] show ?thesis
    unfolding v by blast
qed

text \<open>
  Claim C6 as stated fails in binary64 arithmetic. Two solvers on two cells of volume 1
  with time step 1, velocity 1, zero conductivities, no sources and inflow temperature
  0 agree on the leftmost fluid value \<open>- 2 ^ 1023\<close> and differ in the second cell only:
  \<open>2 ^ 1023\<close> and 0. In the first the difference of the two cells overflows to an
  infinity, its product with the zero conductivity is a NaN, and the new leftmost value
  is a NaN; in the second it is 0.
\<close>

theorem leftmost_cell_inflow_counterexample:
  "finite_double (Fin (- (2 ^ 1023))) \<and> finite_double (Fin (2 ^ 1023)) \<and>
   time_curr (fc_temperature_fluid_fp (CalcStep_fp
      (example_solver_fp (Fin 1) (Fin 1) (Fin 1) (Fin 0) (Fin 0) (Fin 0)
         None None [Fin (- (2 ^ 1023)), Fin (2 ^ 1023)]))) ! 0 = NaN \<and>
   time_curr (fc_temperature_fluid_fp (CalcStep_fp
      (example_solver_fp (Fin 1) (Fin 1) (Fin 1) (Fin 0) (Fin 0) (Fin 0)
         None None [Fin (- (2 ^ 1023)), Fin 0]))) ! 0 = Fin 0"
proof -
  have big: "is_double (2 ^ 1023)"
    by (rule is_doubleI [of "2 ^ 52" 971]) (simp_all add: p2_def)
  have nbig: "is_double (- (2 ^ 1023))"
    by (rule is_doubleI [of "- (2 ^ 52)" 971]) (simp_all add: p2_def)
  have ov: "rnd (2 ^ 1023 + 2 ^ 1023) = PInf"
    by (rule rnd_overflow) simp
  show ?thesis
    using overflow_inflow_example [OF big nbig ov] big nbig
    by (simp only: finite_double.simps simp_thms)
qed

section \<open>Transport solver: null and zero sources\<close>



section \<open>Mesh interpolator: beyond the last source cell\<close>




section \<open>Mesh interpolator: a field on its own mesh\<close>

text \<open>
  Claim C2 at a concrete input. Interpolating the field with values 1 and 2 from the
  uniform two-cell mesh on \<open>[0, 2]\<close> onto the same mesh does not return the field: for
  the first cell the bracket is cell 0 on both sides and the interpolation formula
  divides zero by zero.
\<close>

theorem GetInterpolated_identity_first_cell:
  "GetInterpolated [1, 2] (InitUniformMesh 0 2 2) (InitUniformMesh 0 2 2) = [None, Some 2]"
  by (simp add: GetInterpolated_def Cells_def InitUniformMesh_def GetNeighbourCell_def
        GetInterpolated_scal_def numeral_2_eq_2)

section \<open>Convergence tester: the recorded diff_prev\<close>

text \<open>
  Claim C1 on the code. The constructor of \<open>TesterMms\<close> appends the record of a stage
  to the series before it runs the stage, so the series is never empty where
  \<open>diff_prev\<close> is computed and its last record is the record of the running stage:
  every stage compares its field with that same field interpolated from its own mesh
  onto its own mesh. In the run with 2 and then 4 cells on the domain of length 2, one
  time step of size 1, no velocity, no conductivity, boundary temperature 0 and source
  \<open>x^2\<close>, the stage fields are \<open>[1/4, 9/4]\<close> and \<open>[1/16, 9/16, 25/16, 49/16]\<close>. For
  every difference norm that passes over cells without a number, the second stage
  records \<open>diff_prev = 0\<close>, while the norm of the difference between its field and
  the field of the first stage interpolated onto its mesh, which the claim prescribes,
  is not zero (the two differ in cell 1: \<open>9/16\<close> against \<open>3/4\<close>).
\<close>

theorem TesterMms_second_stage_diff_prev:
  assumes "norm_skipping_NaN CalcDiff"
  shows "\<exists>e1 e2.
     TesterMms CalcDiff 2 2 2 2 1 1 thr 0 0 0 (\<lambda>t x. x * x) func_exact = [e1, e2] \<and>
     diff_prev e1 = Some 0 \<and>
     diff_prev e2 = Some 0 \<and>
     CalcDiff (map Some (fc_fluid_temperature e2))
       (GetInterpolated (fc_fluid_temperature e1) (entry_mesh e1) (entry_mesh e2))
       (entry_mesh e2) \<noteq> Some 0"
proof -
  obtain e1 e2 where run:
    "TesterMms CalcDiff 2 2 2 2 1 1 thr 0 0 0 (\<lambda>t x. x * x) func_exact = [e1, e2]"
    and m1: "entry_mesh e1 = InitUniformMesh 0 2 2"
    and f1: "fc_fluid_temperature e1 = [1 / 4, 9 / 4]"
    and m2: "entry_mesh e2 = InitUniformMesh 0 2 4"
    and f2: "fc_fluid_temperature e2 = [1 / 16, 9 / 16, 25 / 16, 49 / 16]"
    and d1: "diff_with_itself CalcDiff e1" and d2: "diff_with_itself CalcDiff e2"
    using two_stage_series by blast
  note skip = assms [unfolded norm_skipping_NaN_def, rule_format]
  have "agree_on (entry_mesh e1) (map Some (fc_fluid_temperature e1))
          (GetInterpolated (fc_fluid_temperature e1) (entry_mesh e1) (entry_mesh e1))"
    unfolding m1 f1 by (rule self_interpolation_agrees [OF mesh_2_ascending])
       (simp add: InitUniformMesh_def)
  then have z1: "diff_prev e1 = Some 0"
    using d1 skip by (simp add: diff_with_itself_def)
  have "agree_on (entry_mesh e2) (map Some (fc_fluid_temperature e2))
          (GetInterpolated (fc_fluid_temperature e2) (entry_mesh e2) (entry_mesh e2))"
    unfolding m2 f2 by (rule self_interpolation_agrees [OF mesh_4_ascending])
       (simp add: InitUniformMesh_def)
  then have z2: "diff_prev e2 = Some 0"
    using d2 skip by (simp add: diff_with_itself_def)
  have "\<not> agree_on (entry_mesh e2) (map Some (fc_fluid_temperature e2))
          (GetInterpolated (fc_fluid_temperature e1) (entry_mesh e1) (entry_mesh e2))"
  proof
    assume "agree_on (entry_mesh e2) (map Some (fc_fluid_temperature e2))
          (GetInterpolated (fc_fluid_temperature e1) (entry_mesh e1) (entry_mesh e2))"
    then have "\<forall>i < 4. \<forall>x y.
        map Some [1 / 16, 9 / 16, 25 / 16, 49 / 16 :: real] ! i = Some x \<and>
        [None, Some (3 / 4), Some (7 / 4), Some (11 / 4)] ! i = Some y \<longrightarrow> x = y"
      unfolding m1 m2 f1 f2 interp_2_onto_4 agree_on_def by (simp add: InitUniformMesh_def)
    then have "map Some [1 / 16, 9 / 16, 25 / 16, 49 / 16 :: real] ! 1 = Some (9 / 16) \<and>
        [None, Some (3 / 4), Some (7 / 4), Some (11 / 4)] ! 1 = Some (3 / 4 :: real)
        \<longrightarrow> (9 / 16 :: real) = 3 / 4"
      by (metis one_less_numeral_iff semiring_norm(76))
    then show False by simp
  qed
  then have "CalcDiff (map Some (fc_fluid_temperature e2))
       (GetInterpolated (fc_fluid_temperature e1) (entry_mesh e1) (entry_mesh e2))
       (entry_mesh e2) \<noteq> Some 0"
    using skip by simp
  with run z1 z2 show ?thesis by blast
qed

theorem TesterMms_second_stage_diff_prev_witness:
  "\<exists>e1 e2.
     TesterMms max_diff 2 2 2 2 1 1 (1 / 1000) 0 0 0 (\<lambda>t x. x * x) (\<lambda>t x. 0) = [e1, e2] \<and>
     diff_prev e1 = Some 0 \<and>
     diff_prev e2 = Some 0 \<and>
     max_diff (map Some (fc_fluid_temperature e2))
       (GetInterpolated (fc_fluid_temperature e1) (entry_mesh e1) (entry_mesh e2))
       (entry_mesh e2) \<noteq> Some 0"
  using TesterMms_second_stage_diff_prev [OF max_diff_norm_skipping_NaN] .

section \<open>Selection of the manufactured solution: the two names\<close>

text \<open>
  Claim C9. With the flag \<open>MMS\<close> set, the constructor of \<open>hydro\<close> throws exactly when
  the selector is neither \<open>cos(kx)\<close> nor \<open>cos(kx^2)\<close>, and then no tester is run. The
  name \<open>cos(kx)\<close> selects the exact solution \<open>cos (k x)\<close> with the right-hand side
  \<open>- u k sin (k x) + alpha k^2 cos (k x)\<close>; the name \<open>cos(kx^2)\<close> selects the exact
  solution \<open>cos (k x^2)\<close> with the right-hand side
  \<open>- 2 u k x sin (k x^2) + alpha (4 k^2 x^2 cos (k x^2) + 2 k sin (k x^2))\<close>. In both
  cases the right-hand side is \<open>u T' - alpha T''\<close> of the exact solution \<open>T\<close>, and the
  tester runs on that pair.
\<close>

theorem mms_selection:
  "((\<exists>thrown. hydro_MMS CalcDiff True uf alpha k mmsfunc n0 stages factor len steps dt thr T_left
        = Inl thrown)
      = (mmsfunc \<notin> {''cos(kx)'', ''cos(kx^2)''})) \<and>
   ((\<exists>thrown. mms_functions uf alpha k mmsfunc = Inl thrown)
      = (mmsfunc \<notin> {''cos(kx)'', ''cos(kx^2)''})) \<and>
   (mmsfunc \<notin> {''cos(kx)'', ''cos(kx^2)''} \<longrightarrow>
      hydro_MMS CalcDiff True uf alpha k mmsfunc n0 stages factor len steps dt thr T_left
        = Inl (''Unknown MMS_exact_solution: '' @ mmsfunc)) \<and>
   (mmsfunc = ''cos(kx)'' \<longrightarrow>
      (\<exists>func_exact func_rhs.
         mms_functions uf alpha k mmsfunc = Inr (func_exact, func_rhs) \<and>
         (\<forall>t x. func_exact t x = cos (x * k)) \<and>
         (\<forall>t x. func_rhs t x = - uf * k * sin (x * k) + alpha * (k * k) * cos (x * k)) \<and>
         derived_rhs uf alpha func_exact func_rhs \<and>
         hydro_MMS CalcDiff True uf alpha k mmsfunc n0 stages factor len steps dt thr T_left
           = Inr (Some (TesterMms CalcDiff n0 stages factor len steps dt thr uf alpha T_left
                          func_rhs func_exact)))) \<and>
   (mmsfunc = ''cos(kx^2)'' \<longrightarrow>
      (\<exists>func_exact func_rhs.
         mms_functions uf alpha k mmsfunc = Inr (func_exact, func_rhs) \<and>
         (\<forall>t x. func_exact t x = cos (x * x * k)) \<and>
         (\<forall>t x. func_rhs t x =
            - uf * k * 2 * x * sin (x * x * k)
              + alpha * (k * k * 4 * (x * x) * cos (x * x * k) + k * 2 * sin (x * x * k))) \<and>
         derived_rhs uf alpha func_exact func_rhs \<and>
         hydro_MMS CalcDiff True uf alpha k mmsfunc n0 stages factor len steps dt thr T_left
           = Inr (Some (TesterMms CalcDiff n0 stages factor len steps dt thr uf alpha T_left
                          func_rhs func_exact))))"
proof -
  let ?run = "hydro_MMS CalcDiff True uf alpha k mmsfunc n0 stages factor len steps dt thr T_left"
  have unknown: "mmsfunc \<notin> {''cos(kx)'', ''cos(kx^2)''} \<Longrightarrow>
      mms_functions uf alpha k mmsfunc = Inl (''Unknown MMS_exact_solution: '' @ mmsfunc) \<and>
      ?run = Inl (''Unknown MMS_exact_solution: '' @ mmsfunc)"
    by (simp add: hydro_MMS_def mms_functions_unknown)
  have c1: "mmsfunc = ''cos(kx)'' \<Longrightarrow>
      (\<exists>func_exact func_rhs.
         mms_functions uf alpha k mmsfunc = Inr (func_exact, func_rhs) \<and>
         (\<forall>t x. func_exact t x = cos (x * k)) \<and>
         (\<forall>t x. func_rhs t x = - uf * k * sin (x * k) + alpha * (k * k) * cos (x * k)) \<and>
         derived_rhs uf alpha func_exact func_rhs \<and>
         ?run = Inr (Some (TesterMms CalcDiff n0 stages factor len steps dt thr uf alpha T_left
                          func_rhs func_exact)))"
    using derived_rhs_cos [of uf alpha k]
    by (simp add: hydro_MMS_def mms_functions_cos sqr_def)
  have c2: "mmsfunc = ''cos(kx^2)'' \<Longrightarrow>
      (\<exists>func_exact func_rhs.
         mms_functions uf alpha k mmsfunc = Inr (func_exact, func_rhs) \<and>
         (\<forall>t x. func_exact t x = cos (x * x * k)) \<and>
         (\<forall>t x. func_rhs t x =
            - uf * k * 2 * x * sin (x * x * k)
              + alpha * (k * k * 4 * (x * x) * cos (x * x * k) + k * 2 * sin (x * x * k))) \<and>
         derived_rhs uf alpha func_exact func_rhs \<and>
         ?run = Inr (Some (TesterMms CalcDiff n0 stages factor len steps dt thr uf alpha T_left
                          func_rhs func_exact)))"
    using derived_rhs_cos_sqr [of uf alpha k]
    by (simp add: hydro_MMS_def mms_functions_cos_sqr sqr_def)
  have known: "mmsfunc \<in> {''cos(kx)'', ''cos(kx^2)''} \<Longrightarrow>
      (\<exists>p. mms_functions uf alpha k mmsfunc = Inr p) \<and> (\<exists>r. ?run = Inr r)"
    using c1 c2 by auto
  have iff1: "(\<exists>thrown. ?run = Inl thrown) = (mmsfunc \<notin> {''cos(kx)'', ''cos(kx^2)''})"
    using unknown known by (cases "mmsfunc \<in> {''cos(kx)'', ''cos(kx^2)''}") auto
  have iff2: "(\<exists>thrown. mms_functions uf alpha k mmsfunc = Inl thrown)
      = (mmsfunc \<notin> {''cos(kx)'', ''cos(kx^2)''})"
    using unknown known by (cases "mmsfunc \<in> {''cos(kx)'', ''cos(kx^2)''}") auto
  from iff1 iff2 unknown c1 c2 show ?thesis by blast
qed

theorem mms_selection_witness:
  "hydro_MMS (\<lambda>a b m. None) True 1 2 3 ''sin(kx)'' 4 3 2 1 10 (1 / 10) (1 / 100) 0
     = Inl ''Unknown MMS_exact_solution: sin(kx)'' \<and>
   (\<exists>func_exact func_rhs.
      mms_functions 1 2 3 ''cos(kx)'' = Inr (func_exact, func_rhs) \<and>
      func_exact 0 (1 / 2) = cos (3 / 2) \<and>
      func_rhs 0 (1 / 2) = - (3 * sin (3 / 2)) + 18 * cos (3 / 2) \<and>
      hydro_MMS (\<lambda>a b m. None) True 1 2 3 ''cos(kx)'' 4 3 2 1 10 (1 / 10) (1 / 100) 0
        = Inr (Some (TesterMms (\<lambda>a b m. None) 4 3 2 1 10 (1 / 10) (1 / 100) 1 2 0
                       func_rhs func_exact))) \<and>
   (\<exists>func_exact func_rhs.
      mms_functions 1 2 3 ''cos(kx^2)'' = Inr (func_exact, func_rhs) \<and>
      func_exact 0 1 = cos 3 \<and>
      func_rhs 0 1 = - (6 * sin 3) + 2 * (36 * cos 3 + 6 * sin 3))"
proof -
  have 1: "hydro_MMS (\<lambda>a b m. None) True 1 2 3 ''sin(kx)'' 4 3 2 1 10 (1 / 10) (1 / 100) 0
     = Inl (''Unknown MMS_exact_solution: '' @ ''sin(kx)'')"
    using mms_selection [of "\<lambda>a b m. None" 1 2 3 "''sin(kx)''" 4 3 2 1 10 "1 / 10" "1 / 100" 0]
    by simp
  obtain fe fr where 2: "mms_functions 1 2 3 ''cos(kx)'' = Inr (fe, fr)"
    "\<forall>t x. fe t x = cos (x * 3)"
    "\<forall>t x. fr t x = - 1 * 3 * sin (x * 3) + 2 * (3 * 3) * cos (x * 3)"
    "hydro_MMS (\<lambda>a b m. None) True 1 2 3 ''cos(kx)'' 4 3 2 1 10 (1 / 10) (1 / 100) 0
        = Inr (Some (TesterMms (\<lambda>a b m. None) 4 3 2 1 10 (1 / 10) (1 / 100) 1 2 0 fr fe))"
    using mms_selection [of "\<lambda>a b m. None" 1 2 3 "''cos(kx)''" 4 3 2 1 10 "1 / 10" "1 / 100" 0]
    by blast
  obtain ge gr where 3: "mms_functions 1 2 3 ''cos(kx^2)'' = Inr (ge, gr)"
    "\<forall>t x. ge t x = cos (x * x * 3)"
    "\<forall>t x. gr t x = - 1 * 3 * 2 * x * sin (x * x * 3)
              + 2 * (3 * 3 * 4 * (x * x) * cos (x * x * 3) + 3 * 2 * sin (x * x * 3))"
    using mms_selection [of "\<lambda>a b m. None" 1 2 3 "''cos(kx^2)''" 4 3 2 1 10 "1 / 10" "1 / 100" 0]
    by blast
  have "fe 0 (1 / 2) = cos (3 / 2)" "fr 0 (1 / 2) = - (3 * sin (3 / 2)) + 18 * cos (3 / 2)"
    using 2(2,3) by simp_all
  moreover have "ge 0 1 = cos 3" "gr 0 1 = - (6 * sin 3) + 2 * (36 * cos 3 + 6 * sin 3)"
    using 3(2,3) by simp_all
  ultimately show ?thesis using 1 2(1,4) 3(1) by auto
qed

end
